theory Spec2Isabelle
  imports Complex_Main "HOL-Library.Sublist"
begin

section \<open>Python values, strings and errors\<close>

text \<open>
  An exception of the source is a value: its class and the text \<^verbatim>\<open>str(ex)\<close> that
  the source prints. Functions that can raise return \<open>py_error + 'a\<close>, with \<open>Inl\<close>
  for the exception. The texts of exceptions raised by Python itself are abbreviated.
\<close>

datatype exn_kind =
  TypeError | ValueError | ZeroDivisionError | OverflowError | KeyError | IndexError | DatabaseError

datatype py_error = Raised exn_kind string

fun error_text :: "py_error \<Rightarrow> string" where
  "error_text (Raised k msg) = msg"

definition digit_char :: "int \<Rightarrow> char" where
  "digit_char d = ''0123456789'' ! nat d"

text \<open>\<^verbatim>\<open>str(n)\<close> for a Python int: its decimal digits, with a minus sign if negative.\<close>

function str_digits :: "int \<Rightarrow> string" where
  "str_digits n =
     (if n < 10 then [digit_char n] else str_digits (n div 10) @ [digit_char (n mod 10)])"
  by pat_completeness auto
termination
  by (relation "measure nat") auto

declare str_digits.simps [simp del]

definition str_int :: "int \<Rightarrow> string" where
  "str_int n = (if n < 0 then CHR ''-'' # str_digits (- n) else str_digits n)"

text \<open>
  \<^verbatim>\<open>s.replace(old, new)\<close>: every occurrence of \<open>old\<close> in \<open>s\<close>, found from the
  left and not overlapping, becomes \<open>new\<close>. \<^verbatim>\<open>sub in s\<close> on strings is
  \<^const>\<open>sublist\<close>.
\<close>

function py_replace :: "string \<Rightarrow> string \<Rightarrow> string \<Rightarrow> string" where
  "py_replace old new s =
     (if old = [] then new @ concat (map (\<lambda>c. c # new) s)
      else if prefix old s then new @ py_replace old new (drop (length old) s)
      else (case s of [] \<Rightarrow> [] | c # cs \<Rightarrow> c # py_replace old new cs))"
  by pat_completeness auto
termination
  by (relation "measure (\<lambda>(old, new, s). length s)") (auto simp: prefix_def)

declare py_replace.simps [simp del]

definition quoted :: "string \<Rightarrow> string" where
  "quoted s = CHR 0x27 # s @ [CHR 0x27]"

section \<open>Command line arguments and settings\<close>

text \<open>
  The namespace that \<^verbatim>\<open>set_arguments\<close> returns, with the types argparse gives its
  attributes: an option without a default is \<^verbatim>\<open>None\<close> when absent.
\<close>

record args =
  max_processes :: int
  pghost :: "string option"
  pgport :: "int option"
  pgdb :: "string option"
  pguser :: "string option"
  pgpassword :: "string option"
  census_year :: string
  data_schema :: string
  boundary_schema :: string
  web_schema :: string
  census_data_path :: "string option"
  census_bdys_path :: "string option"

text \<open>The namespace \<^verbatim>\<open>set_arguments\<close> returns for an empty command line.\<close>

definition default_args :: args where
  "default_args =
     \<lparr>max_processes = 3, pghost = None, pgport = None, pgdb = None, pguser = None,
      pgpassword = None, census_year = ''2016'', data_schema = ''census_2016_data'',
      boundary_schema = ''census_2016_bdys'', web_schema = ''census_2016_web'',
      census_data_path = None, census_bdys_path = None\<rparr>"

text \<open>
  The settings dictionary. Its keys are fixed and its values differ in type, so it is a
  record with one field for each key \<^verbatim>\<open>get_settings\<close> assigns. A
  dictionary of strings inside it (an entry of \<^verbatim>\<open>bdy_table_dicts\<close>) is an
  association list. \<^verbatim>\<open>pg_port\<close> is an int (the argument or the default 5432) or the
  string of the environment variable.
\<close>

type_synonym py_dict = "(string \<times> string) list"

datatype port_value = PortInt int | PortStr string

record settings =
  max_concurrent_processes :: int
  census_year :: string
  states :: "string list"
  data_schema :: string
  boundary_schema :: string
  web_schema :: string
  data_directory :: string
  boundaries_local_directory :: string
  pg_host :: string
  pg_port :: port_value
  pg_db :: string
  pg_user :: string
  pg_password :: string
  pg_connect_string :: string
  sql_dir :: string
  metadata_file_prefix :: string
  metadata_file_type :: string
  census_metadata_dicts :: "py_dict list"
  data_file_prefix :: string
  data_file_type :: string
  table_name_part :: int
  bdy_name_part :: int
  region_id_field :: string
  bdy_table_dicts :: "py_dict list"

definition bdy_table_dict :: "string \<Rightarrow> string \<Rightarrow> string \<Rightarrow> string \<Rightarrow> py_dict" where
  "bdy_table_dict b i n a =
     [(''boundary'', b), (''id_field'', i), (''name_field'', n), (''area_field'', a)]"

text \<open>\<^verbatim>\<open>x or y\<close> where \<open>x\<close> is a string or \<^verbatim>\<open>None\<close>: the empty string is false too.\<close>

definition str_or :: "string option \<Rightarrow> string \<Rightarrow> string" where
  "str_or x y = (case x of None \<Rightarrow> y | Some s \<Rightarrow> if s = [] then y else s)"

definition getenv :: "(string \<rightharpoonup> string) \<Rightarrow> string \<Rightarrow> string \<Rightarrow> string" where
  "getenv environ name dflt = (case environ name of None \<Rightarrow> dflt | Some v \<Rightarrow> v)"

definition getenv_port :: "(string \<rightharpoonup> string) \<Rightarrow> port_value" where
  "getenv_port environ = (case environ ''PGPORT'' of None \<Rightarrow> PortInt 5432 | Some v \<Rightarrow> PortStr v)"

fun port_text :: "port_value \<Rightarrow> string" where
  "port_text (PortInt p) = str_int p"
| "port_text (PortStr s) = s"

text \<open>\<^verbatim>\<open>os.path.join(a, b)\<close> on a POSIX system.\<close>

definition os_path_join :: "string \<Rightarrow> string \<Rightarrow> string" where
  "os_path_join a b =
     (if b \<noteq> [] \<and> hd b = CHR ''/'' then b
      else if a = [] \<or> last a = CHR ''/'' then a @ b
      else a @ ''/'' @ b)"

text \<open>
  \<^verbatim>\<open>get_settings(args)\<close>. The environment variables and the directory of the
  script (\<^verbatim>\<open>os.path.dirname(os.path.realpath(__file__))\<close>) are parameters. The result
  is \<open>None\<close> where the source returns \<^verbatim>\<open>None\<close>.
\<close>

definition get_settings :: "(string \<rightharpoonup> string) \<Rightarrow> string \<Rightarrow> args \<Rightarrow> settings option" where
  "get_settings environ script_dir a =
     (let census_data_path = str_or (args.census_data_path a) [];
          census_bdys_path = str_or (args.census_bdys_path a) [];
          host = str_or (pghost a) (getenv environ ''PGHOST'' ''localhost'');
          port = (case pgport a of
                    None \<Rightarrow> getenv_port environ
                  | Some p \<Rightarrow> if p = 0 then getenv_port environ else PortInt p);
          db = str_or (pgdb a) (getenv environ ''POSTGRES_USER'' ''geo'');
          user = str_or (pguser a) (getenv environ ''POSTGRES_USER'' ''postgres'');
          password = str_or (pgpassword a) (getenv environ ''POSTGRES_PASSWORD'' ''password'');
          connect_string =
            ''dbname='' @ quoted db @ '' host='' @ quoted host @
            '' port='' @ quoted (port_text port) @ '' user='' @ quoted user @
            '' password='' @ quoted password
      in if args.census_year a = ''2016'' then
           Some \<lparr>max_concurrent_processes = max_processes a,
              census_year = args.census_year a,
              states = [''ACT'', ''NSW'', ''NT'', ''OT'', ''QLD'', ''SA'', ''TAS'', ''VIC'', ''WA''],
              data_schema = args.data_schema a,
              boundary_schema = args.boundary_schema a,
              web_schema = args.web_schema a,
              data_directory = py_replace [CHR 0x5C] ''/'' census_data_path,
              boundaries_local_directory = py_replace [CHR 0x5C] ''/'' census_bdys_path,
              pg_host = host, pg_port = port, pg_db = db, pg_user = user,
              pg_password = password,
              pg_connect_string = connect_string,
              sql_dir = os_path_join script_dir ''postgres-scripts'',
              metadata_file_prefix = ''Sample_Metadata_'',
              metadata_file_type = ''.xls'',
              census_metadata_dicts =
                [[(''table'', ''metadata_tables''), (''first_row'', ''table number'')],
                 [(''table'', ''metadata_stats''), (''first_row'', ''sequential'')]],
              data_file_prefix = ''2016_Sample_'',
              data_file_type = ''.csv'',
              table_name_part = 2,
              bdy_name_part = 3,
              region_id_field = ''aus_code_2016'',
              bdy_table_dicts =
             [bdy_table_dict ''add'' ''add_code16'' ''add_name16'' ''areasqkm16'',
              bdy_table_dict ''ced'' ''ced_code16'' ''ced_name16'' ''areasqkm16'',
              bdy_table_dict ''gccsa'' ''gcc_code16'' ''gcc_name16'' ''areasqkm16'',
              bdy_table_dict ''iare'' ''iar_code16'' ''iar_name16'' ''areasqkm16'',
              bdy_table_dict ''iloc'' ''ilo_code16'' ''ilo_name16'' ''areasqkm16'',
              bdy_table_dict ''ireg'' ''ire_code16'' ''ire_name16'' ''areasqkm16'',
              bdy_table_dict ''lga'' ''lga_code16'' ''lga_name16'' ''areasqkm16'',
              bdy_table_dict ''mb'' ''mb_code16'' (quoted ''MB '' @ '' || mb_code16'') ''areasqkm16'',
              bdy_table_dict ''nrmr'' ''nrm_code16'' ''nrm_name16'' ''areasqkm16'',
              bdy_table_dict ''poa'' ''poa_code16'' (quoted ''Postcode '' @ '' || poa_name16'') ''areasqkm16'',
              bdy_table_dict ''sa1'' ''sa1_main16'' (quoted ''SA1 '' @ '' || sa1_main16'') ''areasqkm16'',
              bdy_table_dict ''sa2'' ''sa2_main16'' ''sa2_name16'' ''areasqkm16'',
              bdy_table_dict ''sa3'' ''sa3_code16'' ''sa3_name16'' ''areasqkm16'',
              bdy_table_dict ''sa4'' ''sa4_code16'' ''sa4_name16'' ''areasqkm16'',
              bdy_table_dict ''sed'' ''sed_code16'' ''sed_name16'' ''areasqkm16'',
              bdy_table_dict ''ssc'' ''ssc_code16'' ''ssc_name16'' ''areasqkm16'',
              bdy_table_dict ''ste'' ''state_code16'' ''state_name16'' ''areasqkm16'',
              bdy_table_dict ''tr'' ''tr_code16'' ''tr_name16'' ''areasqkm16'']\<rparr>
         else if args.census_year a = ''2011'' then
           Some \<lparr>max_concurrent_processes = max_processes a,
              census_year = args.census_year a,
              states = [''ACT'', ''NSW'', ''NT'', ''OT'', ''QLD'', ''SA'', ''TAS'', ''VIC'', ''WA''],
              data_schema = args.data_schema a,
              boundary_schema = args.boundary_schema a,
              web_schema = args.web_schema a,
              data_directory = py_replace [CHR 0x5C] ''/'' census_data_path,
              boundaries_local_directory = py_replace [CHR 0x5C] ''/'' census_bdys_path,
              pg_host = host, pg_port = port, pg_db = db, pg_user = user,
              pg_password = password,
              pg_connect_string = connect_string,
              sql_dir = os_path_join script_dir ''postgres-scripts'',
              metadata_file_prefix = ''Metadata_'',
              metadata_file_type = ''.xlsx'',
              census_metadata_dicts =
                [[(''table'', ''metadata_tables''), (''first_row'', ''table number'')],
                 [(''table'', ''metadata_stats''), (''first_row'', ''sequential'')]],
              data_file_prefix = ''2011Census_'',
              data_file_type = ''.csv'',
              table_name_part = 1,
              bdy_name_part = 3,
              region_id_field = ''region_id'',
              bdy_table_dicts =
             [bdy_table_dict ''ced'' ''ced_code'' ''ced_name'' ''area_sqkm'',
              bdy_table_dict ''gccsa'' ''gccsa_code'' ''gccsa_name'' ''area_sqkm'',
              bdy_table_dict ''iare'' ''iare_code'' ''iare_name'' ''area_sqkm'',
              bdy_table_dict ''iloc'' ''iloc_code'' ''iloc_name'' ''area_sqkm'',
              bdy_table_dict ''ireg'' ''ireg_code'' ''ireg_name'' ''area_sqkm'',
              bdy_table_dict ''lga'' ''lga_code'' ''lga_name'' ''area_sqkm'',
              bdy_table_dict ''mb'' ''mb_code11'' (quoted ''MB '' @ '' || mb_code11'') ''albers_sqm / 1000000.0'',
              bdy_table_dict ''poa'' ''poa_code'' (quoted ''POA '' @ '' || poa_name'') ''area_sqkm'',
              bdy_table_dict ''ra'' ''ra_code'' ''ra_name'' ''area_sqkm'',
              bdy_table_dict ''sa1'' ''sa1_7digit'' (quoted ''SA1 '' @ '' || sa1_7digit'') ''area_sqkm'',
              bdy_table_dict ''sa2'' ''sa2_main'' ''sa2_name'' ''area_sqkm'',
              bdy_table_dict ''sa3'' ''sa3_code'' ''sa3_name'' ''area_sqkm'',
              bdy_table_dict ''sa4'' ''sa4_code'' ''sa4_name'' ''area_sqkm'',
              bdy_table_dict ''sed'' ''sed_code'' ''sed_name'' ''area_sqkm'',
              bdy_table_dict ''sla'' ''sla_main'' ''sla_name'' ''area_sqkm'',
              bdy_table_dict ''sos'' ''sos_code'' ''sos_name'' ''area_sqkm'',
              bdy_table_dict ''sosr'' ''sosr_code'' ''sosr_name'' ''area_sqkm'',
              bdy_table_dict ''ssc'' ''ssc_code'' ''ssc_name'' ''area_sqkm'',
              bdy_table_dict ''ste'' ''state_code'' ''state_name'' ''area_sqkm'',
              bdy_table_dict ''sua'' ''sua_code'' ''sua_name'' ''area_sqkm'',
              bdy_table_dict ''ucl'' ''ucl_code'' ''ucl_name'' ''area_sqkm'']\<rparr>
         else None)"

text \<open>
  The settings of a run with an empty command line and an empty environment, the script
  installed under \<^verbatim>\<open>/opt/census-loader/web\<close>.
\<close>

definition default_settings :: settings where
  "default_settings = the (get_settings Map.empty ''/opt/census-loader/web'' default_args)"

section \<open>Zoom level to boundary resolution\<close>

text \<open>
  \<^verbatim>\<open>get_boundary(zoom_level)\<close> of \<^verbatim>\<open>web/utils.py\<close>: an
  \<^verbatim>\<open>if/elif\<close> chain over the integer zoom level that picks the boundary name
  and the minimum value to colour in. The chain is kept in the order of the source.
\<close>

definition get_boundary :: "int \<Rightarrow> string \<times> int" where
  "get_boundary zoom_level =
     (if zoom_level < 7 then (''ste'', 80)
      else if zoom_level < 9 then (''sa4'', 40)
      else if zoom_level < 11 then (''sa3'', 20)
      else if zoom_level < 14 then (''sa2'', 15)
      else if zoom_level < 17 then (''sa1'', 10)
      else (''mb'', 3))"

section \<open>Simplification tolerance and coordinate precision\<close>


text \<open>
  \<^verbatim>\<open>math.pi\<close> is a constant of type float: the double nearest to the circle
  constant, \<open>884279719003555 / 2^48\<close>. The model takes that value.
\<close>

definition math_pi :: real where
  "math_pi = 884279719003555 / 281474976710656"

text \<open>
  \<^verbatim>\<open>"{:10.9f}".format(x).split(".")[1]\<close>: the value is rounded to nine decimals
  (to the nearest, a tie to the even neighbour) and printed with exactly nine digits
  after the point; the part after the point is those nine digits. A sign or the
  padding to width 10 only changes the part before the point.
\<close>

definition round_half_even :: "real \<Rightarrow> int" where
  "round_half_even x =
     (let f = \<lfloor>x\<rfloor>; r = x - of_int f
      in if r < 1 / 2 then f else if 1 / 2 < r then f + 1
         else if even f then f else f + 1)"

primrec fixed_digits :: "nat \<Rightarrow> int \<Rightarrow> string" where
  "fixed_digits 0 n = []"
| "fixed_digits (Suc k) n = fixed_digits k (n div 10) @ [digit_char (n mod 10)]"

definition format_9f_fraction :: "real \<Rightarrow> string" where
  "format_9f_fraction x = fixed_digits 9 (round_half_even (\<bar>x\<bar> * 10 ^ 9) mod 10 ^ 9)"

text \<open>
  The loop of \<^verbatim>\<open>get_decimal_places\<close> over the characters of
  \<^verbatim>\<open>scale_string\<close>. Its state is \<^verbatim>\<open>places\<close> and \<^verbatim>\<open>trigger\<close>;
  a character \<^verbatim>\<open>c\<close> equals the trigger when the trigger is the one-character
  string of \<open>c\<close>.
\<close>

fun count_zeros_loop :: "string \<Rightarrow> int \<times> string \<Rightarrow> int \<times> string" where
  "count_zeros_loop [] st = st"
| "count_zeros_loop (c # cs) (places, trigger) =
     (if [c] = trigger then count_zeros_loop cs (places + 1, trigger)
      else count_zeros_loop cs (places, ''don't do anything else''))"

definition metres2degrees :: real where
  "metres2degrees = (2 * math_pi * 6378137) / 360"

definition degrees_per_pixel :: "int \<Rightarrow> real" where
  "degrees_per_pixel zoom_level =
     (let metres_per_pixel = 156543.03390625 / (2 powi zoom_level)
      in metres_per_pixel / metres2degrees)"

definition scale_string :: "int \<Rightarrow> string" where
  "scale_string zoom_level = format_9f_fraction (degrees_per_pixel zoom_level)"

text \<open>
  The part of \<^verbatim>\<open>get_decimal_places\<close> after \<^verbatim>\<open>degrees_per_pixel\<close> is computed,
  as a function of that value: the formatting and the loop over the digits.
\<close>

definition decimal_places_of :: "real \<Rightarrow> int" where
  "decimal_places_of d = fst (count_zeros_loop (format_9f_fraction d) (1, ''0''))"

definition get_decimal_places :: "int \<Rightarrow> int" where
  "get_decimal_places zoom_level = decimal_places_of (degrees_per_pixel zoom_level)"

text \<open>
  The specification's reading of the result, for comparison with the loop: the \<open>k\<close>-th
  digit after the decimal point of a value, and the statement that a value has exactly
  \<open>n\<close> zero digits directly after the point (digits \<open>1..n\<close> are zero and digit
  \<open>n + 1\<close> is not).
\<close>

definition decimal_digit :: "real \<Rightarrow> nat \<Rightarrow> int" where
  "decimal_digit x k = \<lfloor>\<bar>x\<bar> * 10 ^ k\<rfloor> mod 10"

definition leading_zero_digits :: "real \<Rightarrow> nat \<Rightarrow> bool" where
  "leading_zero_digits x n \<longleftrightarrow>
     list_all (\<lambda>k. decimal_digit x k = 0) [1..<Suc n] \<and> decimal_digit x (Suc n) \<noteq> 0"

section \<open>Floating point arithmetic\<close>

text \<open>
  A Python float is an IEEE 754 double: a number \<open>m * 2 ^ e\<close> with an integer
  \<open>m\<close> of at most 53 bits and \<open>e \<ge> -1074\<close>. A float is modelled by the real
  number it stands for. The result of a float operation is the exact result rounded to
  the nearest double, a tie to the double with the even \<open>m\<close>: \<open>fl\<close> rounds a real
  number to the multiple of \<open>2 ^ (e - 52)\<close> nearest to it, where \<open>2 ^ e\<close> is the
  largest power of two not above its magnitude, and \<open>e\<close> is \<open>-1022\<close> for the numbers
  below \<open>2 ^ -1022\<close>. The exponent is found by bisection of the range from
  \<open>-1022\<close> to \<open>1024\<close>, which eleven steps exhaust. Infinities and NaN are not
  modelled: \<open>fl\<close> gives the result of an operation whose rounded result is below
  \<open>2 ^ 1024\<close> in magnitude.
\<close>

fun binade_search :: "nat \<Rightarrow> int \<Rightarrow> int \<Rightarrow> real \<Rightarrow> int" where
  "binade_search 0 lo hi x = lo"
| "binade_search (Suc fuel) lo hi x =
     (if hi \<le> lo + 1 then lo
      else (let mid = (lo + hi) div 2
            in if 2 powi mid \<le> x then binade_search fuel mid hi x
               else binade_search fuel lo mid x))"

definition float_exponent :: "real \<Rightarrow> int" where
  "float_exponent x = binade_search 11 (- 1022) 1024 \<bar>x\<bar>"

definition fl :: "real \<Rightarrow> real" where
  "fl x = (let ulp = 2 powi (float_exponent x - 52)
           in of_int (round_half_even (x / ulp)) * ulp)"

text \<open>
  \<^verbatim>\<open>float(n)\<close> for a Python int: the double nearest to \<open>n\<close>, and an
  OverflowError when that is beyond the largest double.
\<close>

definition py_float :: "int \<Rightarrow> py_error + real" where
  "py_float n =
     (if \<bar>fl (of_int n)\<bar> < 2 ^ 1024 then Inr (fl (of_int n))
      else Inl (Raised OverflowError ''int too large to convert to float''))"

section \<open>Classification bins\<close>

text \<open>
  The database cursor. \<^verbatim>\<open>pg_cur.mogrify(sql, params)\<close> fills the \<^verbatim>\<open>%s\<close>
  placeholders of the statement, from the left, with the parameters; every parameter of
  the source is wrapped in \<^verbatim>\<open>AsIs\<close>, so its text is inserted as it is (for an int,
  its decimal digits). \<^verbatim>\<open>%%\<close> is a percent sign; a parameter too many or too few,
  or another character after \<^verbatim>\<open>%\<close>, raises.
\<close>

definition emit :: "string \<Rightarrow> py_error + string \<Rightarrow> py_error + string" where
  "emit text r = (case r of Inl ex \<Rightarrow> Inl ex | Inr s \<Rightarrow> Inr (text @ s))"

fun mogrify :: "string \<Rightarrow> string list \<Rightarrow> py_error + string" where
  "mogrify [] [] = Inr []"
| "mogrify [] (a # as) =
     Inl (Raised TypeError ''not all arguments converted during string formatting'')"
| "mogrify (c # cs) args =
     (if c \<noteq> CHR ''%'' then emit [c] (mogrify cs args)
      else (case cs of
              [] \<Rightarrow> Inl (Raised ValueError ''incomplete format'')
            | d # rest \<Rightarrow>
                if d = CHR ''s'' then
                  (case args of
                     [] \<Rightarrow> Inl (Raised TypeError ''not enough arguments for format string'')
                   | a # as \<Rightarrow> emit a (mogrify rest as))
                else if d = CHR ''%'' then emit ''%'' (mogrify rest args)
                else Inl (Raised ValueError ''unsupported format character'')))"

text \<open>
  A value of a result column is a float or \<^verbatim>\<open>None\<close> (SQL NULL). A fetched row
  gives its values by column name (\<^verbatim>\<open>row["min"]\<close>) and by position
  (\<^verbatim>\<open>result[0]\<close>). The database is a function from the text of a statement to what
  \<^verbatim>\<open>execute\<close> does with it: it raises, or it yields the rows to fetch.
\<close>

datatype sql_value = Null | Num real

type_synonym row = "(string \<times> sql_value) list"

type_synonym cursor = "string \<Rightarrow> py_error + row list"

text \<open>What the source prints: a string, or the bytes of a statement.\<close>

datatype printed = PrintStr string | PrintBytes string

text \<open>\<^verbatim>\<open>"{0} - {1} Failed: {2}".format(data_table, stat_field, ex)\<close>\<close>

definition failed_message :: "string \<Rightarrow> string \<Rightarrow> py_error \<Rightarrow> string" where
  "failed_message data_table stat_field ex =
     data_table @ '' - '' @ stat_field @ '' Failed: '' @ error_text ex"

text \<open>
  The body of a \<^verbatim>\<open>try\<close> block that builds a statement and executes it: an exception
  of either step leaves the block.
\<close>

definition execute :: "cursor \<Rightarrow> py_error + string \<Rightarrow> py_error + row list" where
  "execute pg_cur sql_string = (case sql_string of Inl ex \<Rightarrow> Inl ex | Inr q \<Rightarrow> pg_cur q)"

text \<open>
  \<^verbatim>\<open>get_kmeans_bins\<close>. The statement is the template with
  \<^verbatim>\<open>{0}\<close> and \<^verbatim>\<open>{1}\<close> filled by \<^verbatim>\<open>format\<close>, then the placeholders
  filled by \<^verbatim>\<open>mogrify\<close>. \<^verbatim>\<open>float_str\<close> stands for Python's conversion of a
  float to text (\<^verbatim>\<open>float(min_val)\<close> inside \<^verbatim>\<open>format\<close>), which is left open.
  The result is what is printed and the returned list, or the exception that leaves the
  function.
\<close>

definition kmeans_sql ::
  "(real \<Rightarrow> string) \<Rightarrow> string \<Rightarrow> string \<Rightarrow> string \<Rightarrow> int \<Rightarrow> real \<Rightarrow> string \<Rightarrow> settings
     \<Rightarrow> py_error + string" where
  "kmeans_sql float_str data_table boundary_table stat_field num_classes min_val map_type settings =
     (if map_type = ''values'' then
        mogrify (''WITH sub AS ('' @
                 ''WITH points AS ('' @
                 ''SELECT %s as val, ST_MakePoint(%s, 0) AS pnt '' @
                 ''FROM %s AS tab '' @
                 ''INNER JOIN %s AS bdy ON tab.'' @ region_id_field settings @ '' = bdy.id '' @
                 ''WHERE %s > 0.0 '' @
                 ''AND bdy.population > '' @ float_str min_val @
                 '') '' @
                 ''SELECT val, ST_ClusterKMeans(pnt, %s) OVER () AS cluster_id FROM points'' @
                 '') '' @
                 ''SELECT MAX(val) AS val FROM sub GROUP BY cluster_id ORDER BY val'')
          [stat_field, stat_field, data_table, boundary_table, stat_field, str_int num_classes]
      else
        mogrify (''WITH sub AS ('' @
                 ''WITH points AS ('' @
                 ''SELECT %s as val, ST_MakePoint(%s, 0) AS pnt '' @
                 ''FROM %s AS tab '' @
                 ''INNER JOIN %s AS bdy ON tab.'' @ region_id_field settings @ '' = bdy.id '' @
                 ''WHERE %s > 0.0 AND %s < 100.0 '' @
                 ''AND bdy.population > '' @ float_str min_val @
                 '') '' @
                 ''SELECT val, ST_ClusterKMeans(pnt, %s) OVER () AS cluster_id FROM points'' @
                 '') '' @
                 ''SELECT MAX(val) AS val FROM sub GROUP BY cluster_id ORDER BY val'')
          [stat_field, stat_field, data_table, boundary_table, stat_field, stat_field,
           str_int num_classes])"

fun collect_val :: "row list \<Rightarrow> sql_value list \<Rightarrow> py_error + sql_value list" where
  "collect_val [] output_list = Inr output_list"
| "collect_val (row # rows) output_list =
     (case map_of row ''val'' of
        None \<Rightarrow> Inl (Raised KeyError ''val'')
      | Some v \<Rightarrow> collect_val rows (output_list @ [v]))"

definition get_kmeans_bins ::
  "(real \<Rightarrow> string) \<Rightarrow> string \<Rightarrow> string \<Rightarrow> string \<Rightarrow> int \<Rightarrow> real \<Rightarrow> string \<Rightarrow> cursor \<Rightarrow> settings
     \<Rightarrow> printed list \<times> (py_error + sql_value list)" where
  "get_kmeans_bins float_str data_table boundary_table stat_field num_classes min_val map_type
       pg_cur settings =
     (case execute pg_cur
             (kmeans_sql float_str data_table boundary_table stat_field num_classes min_val
                map_type settings) of
        Inl ex \<Rightarrow> ([PrintStr (failed_message data_table stat_field ex)], Inr [])
      | Inr rows \<Rightarrow> ([], collect_val rows []))"

text \<open>
  \<^verbatim>\<open>get_equal_interval_bins\<close>: the query in the \<^verbatim>\<open>try\<close> block, then the
  arithmetic on the fetched row outside it. The subtraction, the division and every
  \<^verbatim>\<open>curr_val += delta\<close> of the loop are float operations, each rounded to the
  nearest double.
\<close>

definition equal_interval_sql ::
  "string \<Rightarrow> string \<Rightarrow> string \<Rightarrow> string \<Rightarrow> settings \<Rightarrow> py_error + string" where
  "equal_interval_sql data_table boundary_table stat_field map_type settings =
     (if map_type = ''values'' then
        mogrify (''SELECT MIN(%s) AS min, MAX(%s) AS max FROM %s AS tab '' @
                 ''INNER JOIN %s AS bdy ON tab.'' @ region_id_field settings @ '' = bdy.id '' @
                 ''WHERE %s > 0 '' @
                 ''AND bdy.population > 5'')
          [stat_field, stat_field, data_table, boundary_table, stat_field]
      else
        mogrify (''SELECT MIN(%s) AS min, MAX(%s) AS max FROM %s AS tab '' @
                 ''INNER JOIN %s AS bdy ON tab.'' @ region_id_field settings @ '' = bdy.id '' @
                 ''WHERE %s > 0 AND %s < 100.0 '' @
                 ''AND bdy.population > 5'')
          [stat_field, stat_field, data_table, boundary_table, stat_field, stat_field])"

definition fetchone :: "row list \<Rightarrow> row option" where
  "fetchone rows = (case rows of [] \<Rightarrow> None | row # _ \<Rightarrow> Some row)"

fun interval_loop :: "nat \<Rightarrow> real \<Rightarrow> real \<Rightarrow> real list \<Rightarrow> real list" where
  "interval_loop 0 curr_val delta output_list = output_list"
| "interval_loop (Suc k) curr_val delta output_list =
     interval_loop k (fl (curr_val + delta)) delta (output_list @ [curr_val])"

definition equal_interval_breaks :: "row option \<Rightarrow> int \<Rightarrow> py_error + real list" where
  "equal_interval_breaks fetched num_classes =
     (case fetched of
        None \<Rightarrow> Inl (Raised TypeError ''NoneType object is not subscriptable'')
      | Some row \<Rightarrow>
          (case map_of row ''min'' of
             None \<Rightarrow> Inl (Raised KeyError ''min'')
           | Some min_val \<Rightarrow>
               (case map_of row ''max'' of
                  None \<Rightarrow> Inl (Raised KeyError ''max'')
                | Some max_val \<Rightarrow>
                    (case (max_val, min_val) of
                       (Num mx, Num mn) \<Rightarrow>
                         (case py_float num_classes of
                            Inl ex \<Rightarrow> Inl ex
                          | Inr classes \<Rightarrow>
                              if classes = 0
                              then Inl (Raised ZeroDivisionError ''float division by zero'')
                              else (let delta = fl (fl (mx - mn) / classes)
                                    in Inr (interval_loop (nat num_classes) mn delta [])))
                     | _ \<Rightarrow> Inl (Raised TypeError ''unsupported operand type(s) for -'')))))"

definition get_equal_interval_bins ::
  "string \<Rightarrow> string \<Rightarrow> string \<Rightarrow> int \<Rightarrow> string \<Rightarrow> cursor \<Rightarrow> settings
     \<Rightarrow> printed list \<times> (py_error + real list)" where
  "get_equal_interval_bins data_table boundary_table stat_field num_classes map_type pg_cur settings =
     (case execute pg_cur
             (equal_interval_sql data_table boundary_table stat_field map_type settings) of
        Inl ex \<Rightarrow> ([PrintStr (failed_message data_table stat_field ex)], Inr [])
      | Inr rows \<Rightarrow> ([], equal_interval_breaks (fetchone rows) num_classes))"

text \<open>\<^verbatim>\<open>get_equal_count_bins\<close>; the statement is printed before it is executed.\<close>

definition equal_count_sql ::
  "string \<Rightarrow> string \<Rightarrow> string \<Rightarrow> int \<Rightarrow> string \<Rightarrow> settings \<Rightarrow> py_error + string" where
  "equal_count_sql data_table boundary_table stat_field num_classes map_type settings =
     (if map_type = ''values'' then
        mogrify (''WITH classes AS ('' @
                 ''SELECT %s as val, ntile(%s) OVER (ORDER BY %s) AS class_id '' @
                 ''FROM %s AS tab '' @
                 ''INNER JOIN %s AS bdy ON tab.'' @ region_id_field settings @ '' = bdy.id '' @
                 ''WHERE %s > 0.0 '' @
                 ''AND bdy.population > 5.0'' @
                 '') '' @
                 ''SELECT MAX(val) AS val, class_id FROM classes GROUP BY class_id ORDER BY class_id'')
          [stat_field, str_int num_classes, stat_field, data_table, boundary_table, stat_field]
      else
        mogrify (''WITH classes AS ('' @
                 ''SELECT %s as val, ntile(7) OVER (ORDER BY %s) AS class_id '' @
                 ''FROM %s AS tab '' @
                 ''INNER JOIN %s AS bdy ON tab.'' @ region_id_field settings @ '' = bdy.id '' @
                 ''WHERE %s > 0.0 AND %s < 100.0 '' @
                 ''AND bdy.population > 5.0'' @
                 '') '' @
                 ''SELECT MAX(val) AS val, class_id FROM classes GROUP BY class_id ORDER BY class_id'')
          [stat_field, stat_field, data_table, boundary_table, stat_field, stat_field])"

definition get_equal_count_bins ::
  "string \<Rightarrow> string \<Rightarrow> string \<Rightarrow> int \<Rightarrow> string \<Rightarrow> cursor \<Rightarrow> settings
     \<Rightarrow> printed list \<times> (py_error + sql_value list)" where
  "get_equal_count_bins data_table boundary_table stat_field num_classes map_type pg_cur settings =
     (case equal_count_sql data_table boundary_table stat_field num_classes map_type settings of
        Inl ex \<Rightarrow> ([PrintStr (failed_message data_table stat_field ex)], Inr [])
      | Inr sql_string \<Rightarrow>
          (case pg_cur sql_string of
             Inl ex \<Rightarrow>
               ([PrintBytes sql_string, PrintStr (failed_message data_table stat_field ex)],
                Inr [])
           | Inr rows \<Rightarrow> ([PrintBytes sql_string], collect_val rows [])))"

section \<open>Splitting a statement by primary key ranges\<close>

text \<open>The logger: the level and the text of each message, in the order they are logged.\<close>

datatype log_level = Info | Warning | Fatal

type_synonym log = "(log_level \<times> string) list"

text \<open>
  \<^verbatim>\<open>"SELECT MIN({2}) AS min, MAX({2}) AS max FROM {0}.{1}".format(table_schema,
  table_name, table_gid)\<close>
\<close>

definition min_max_sql :: "string \<Rightarrow> string \<Rightarrow> string \<Rightarrow> string" where
  "min_max_sql table_schema table_name table_gid =
     ''SELECT MIN('' @ table_gid @ '') AS min, MAX('' @ table_gid @ '') AS max FROM '' @
     table_schema @ ''.'' @ table_name"

text \<open>
  \<^verbatim>\<open>int(result[i])\<close> on the fetched row: no row, a missing column and
  \<^verbatim>\<open>None\<close> raise; \<^verbatim>\<open>int\<close> of a float cuts its fraction off.
\<close>

definition pkey_of :: "row option \<Rightarrow> nat \<Rightarrow> py_error + int" where
  "pkey_of result i =
     (case result of
        None \<Rightarrow> Inl (Raised TypeError ''NoneType object is not subscriptable'')
      | Some r \<Rightarrow>
          if length r \<le> i then Inl (Raised IndexError ''tuple index out of range'')
          else (case snd (r ! i) of
                  Null \<Rightarrow> Inl (Raised TypeError ''int() argument must be a number, not NoneType'')
                | Num x \<Rightarrow> Inr (if 0 \<le> x then \<lfloor>x\<rfloor> else \<lceil>x\<rceil>)))"

text \<open>
  \<^verbatim>\<open>" WHERE {0}.{3} > {1} AND {0}.{3} <= {2}".format(table_alias, start_pkey,
  end_pkey, table_gid)\<close>
\<close>

definition where_clause :: "string \<Rightarrow> int \<Rightarrow> int \<Rightarrow> string \<Rightarrow> string" where
  "where_clause table_alias start_pkey end_pkey table_gid =
     '' WHERE '' @ table_alias @ ''.'' @ table_gid @ '' > '' @ str_int start_pkey @
     '' AND '' @ table_alias @ ''.'' @ table_gid @ '' <= '' @ str_int end_pkey"

text \<open>
  The \<^verbatim>\<open>if/elif\<close> chain in the loop of \<^verbatim>\<open>split_sql_into_list\<close> that
  builds \<^verbatim>\<open>mp_sql\<close> from \<^verbatim>\<open>the_sql\<close> and the where clause, with the
  warning it logs in the last branch.
\<close>

definition inject_where_clause :: "string \<Rightarrow> string \<Rightarrow> string \<times> log" where
  "inject_where_clause the_sql clause =
     (if sublist ''WHERE '' the_sql then
        (py_replace '' WHERE '' (clause @ '' AND '') the_sql, [])
      else if sublist ''GROUP BY '' the_sql then
        (py_replace ''GROUP BY '' (clause @ '' GROUP BY '') the_sql, [])
      else if sublist ''ORDER BY '' the_sql then
        (py_replace ''ORDER BY '' (clause @ '' ORDER BY '') the_sql, [])
      else if sublist '';'' the_sql then
        (py_replace '';'' (clause @ '';'') the_sql, [])
      else
        (the_sql @ clause,
         [(Warning, [CHR 0x09, CHR 0x09] @
                    ''- NOTICE: no ; found at the end of the SQL statement'')]))"

text \<open>
  The loop \<^verbatim>\<open>for i in range(0, processes)\<close>: its state is
  \<^verbatim>\<open>start_pkey\<close>, the log and \<^verbatim>\<open>sql_list\<close>.
\<close>

fun split_loop ::
  "nat \<Rightarrow> int \<Rightarrow> int \<Rightarrow> string \<Rightarrow> string \<Rightarrow> string \<Rightarrow> log \<times> string list \<Rightarrow> log \<times> string list" where
  "split_loop 0 start_pkey rows_per_request the_sql table_alias table_gid st = st"
| "split_loop (Suc k) start_pkey rows_per_request the_sql table_alias table_gid (lg, sql_list) =
     (let end_pkey = start_pkey + rows_per_request;
          (mp_sql, warned) =
             inject_where_clause the_sql (where_clause table_alias start_pkey end_pkey table_gid)
      in split_loop k end_pkey rows_per_request the_sql table_alias table_gid
           (lg @ warned, sql_list @ [mp_sql]))"

text \<open>
  The rows per request and the number of processes, with the message logged when both
  are adjusted. \<^verbatim>\<open>float(diff)\<close> and
  \<^verbatim>\<open>float(settings['max_concurrent_processes'])\<close> are the doubles nearest to the
  two ints, their quotient is rounded to the nearest double, and
  \<^verbatim>\<open>int(math.floor(q))\<close> is the floor of that double. A conversion that overflows
  and the division by \<^verbatim>\<open>0.0\<close> raise.
\<close>

definition split_size :: "int \<Rightarrow> int \<Rightarrow> py_error + int \<times> int \<times> log" where
  "split_size diff max_procs =
     (case py_float diff of
        Inl ex \<Rightarrow> Inl ex
      | Inr float_diff \<Rightarrow>
          (case py_float max_procs of
             Inl ex \<Rightarrow> Inl ex
           | Inr float_procs \<Rightarrow>
               if float_procs = 0
               then Inl (Raised ZeroDivisionError ''float division by zero'')
               else (let rows_per_request = \<lfloor>fl (float_diff / float_procs)\<rfloor> + 1
                     in if fl (float_diff / float_procs) < 10 then
                          (let processes = \<lfloor>fl (float_diff / 10)\<rfloor> + 1
                           in Inr (10, processes,
                                   [(Info, [CHR 0x09, CHR 0x09] @ ''- running '' @
                                           str_int processes @
                                           '' processes (adjusted due to low row count in table to split)'')]))
                        else Inr (rows_per_request, max_procs, []))))"

text \<open>
  The body of the \<^verbatim>\<open>try\<close> block, and the function: \<^verbatim>\<open>execute\<close> stands
  before the block, so its exception leaves the function; an exception inside the block
  is logged as fatal and the function returns \<^verbatim>\<open>None\<close>.
\<close>

definition split_try ::
  "row list \<Rightarrow> string \<Rightarrow> string \<Rightarrow> string \<Rightarrow> settings \<Rightarrow> py_error + log \<times> string list" where
  "split_try rows the_sql table_alias table_gid settings =
     (let result = fetchone rows in
      case pkey_of result 0 of
        Inl ex \<Rightarrow> Inl ex
      | Inr min_pkey \<Rightarrow>
          (case pkey_of result 1 of
             Inl ex \<Rightarrow> Inl ex
           | Inr max_pkey \<Rightarrow>
               (let diff = max_pkey - min_pkey in
                case split_size diff (max_concurrent_processes settings) of
                  Inl ex \<Rightarrow> Inl ex
                | Inr (rows_per_request, processes, lg) \<Rightarrow>
                    Inr (split_loop (nat processes) (min_pkey - 1) rows_per_request
                           the_sql table_alias table_gid (lg, [])))))"

definition split_sql_into_list ::
  "cursor \<Rightarrow> string \<Rightarrow> string \<Rightarrow> string \<Rightarrow> string \<Rightarrow> string \<Rightarrow> settings
     \<Rightarrow> log \<times> (py_error + string list option)" where
  "split_sql_into_list pg_cur the_sql table_schema table_name table_alias table_gid settings =
     (case pg_cur (min_max_sql table_schema table_name table_gid) of
        Inl ex \<Rightarrow> ([], Inl ex)
      | Inr rows \<Rightarrow>
          (case split_try rows the_sql table_alias table_gid settings of
             Inl ex \<Rightarrow>
               ([(Fatal, ''Looks like the table in this query is empty: '' @
                         min_max_sql table_schema table_name table_gid @ [CHR 0x0A] @
                         error_text ex)],
                Inr None)
           | Inr (lg, sql_list) \<Rightarrow> (lg, Inr (Some sql_list))))"

text \<open>
  The pairs \<^verbatim>\<open>(start_pkey, end_pkey)\<close> the loop runs through, and those of a call
  with the given smallest and largest key, or the exception raised before the loop: the
  statements returned are built from them (lemma \<open>split_loop_ranges\<close>).
\<close>

fun loop_ranges :: "nat \<Rightarrow> int \<Rightarrow> int \<Rightarrow> (int \<times> int) list" where
  "loop_ranges 0 start_pkey rows_per_request = []"
| "loop_ranges (Suc k) start_pkey rows_per_request =
     (start_pkey, start_pkey + rows_per_request)
       # loop_ranges k (start_pkey + rows_per_request) rows_per_request"

definition split_ranges :: "int \<Rightarrow> int \<Rightarrow> int \<Rightarrow> py_error + (int \<times> int) list" where
  "split_ranges min_pkey max_pkey max_procs =
     (case split_size (max_pkey - min_pkey) max_procs of
        Inl ex \<Rightarrow> Inl ex
      | Inr (rows_per_request, processes, lg) \<Rightarrow>
          Inr (loop_ranges (nat processes) (min_pkey - 1) rows_per_request))"

section \<open>Properties\<close>

subsection \<open>Integer division\<close>

lemma div_interval_iff:
  fixes x r q :: int
  assumes "0 < r"
  shows "x div r = q \<longleftrightarrow> q * r \<le> x \<and> x < (q + 1) * r"
proof
  assume e: "x div r = q"
  have "x = r * (x div r) + x mod r" by simp
  moreover have "0 \<le> x mod r" "x mod r < r" using assms by simp_all
  ultimately show "q * r \<le> x \<and> x < (q + 1) * r"
    unfolding e by (simp add: algebra_simps)
next
  assume h: "q * r \<le> x \<and> x < (q + 1) * r"
  have "x = r * q + (x - q * r)" by (simp add: algebra_simps)
  moreover have "0 \<le> x - q * r" "x - q * r < r" using h by (simp_all add: algebra_simps)
  ultimately show "x div r = q" by (rule int_div_pos_eq)
qed

subsection \<open>The tier table of get_boundary\<close>

text \<open>
  C5. For every integer zoom, \<open>get_boundary\<close> returns the pair of the fixed tier
  table: below 7 the state tier with threshold 80, from 7 to 8 sa4 with 40, from 9 to 10
  sa3 with 20, from 11 to 13 sa2 with 15, from 14 to 16 sa1 with 10, and from 17 upwards
  the mesh-block tier with threshold 3. The function is a total HOL function of the zoom
  alone, so it yields exactly one pair for every integer and the same pair each time.
\<close>

theorem get_boundary_tier_table:
  "(z < 7 \<longrightarrow> get_boundary z = (''ste'', 80)) \<and>
   (7 \<le> z \<and> z < 9 \<longrightarrow> get_boundary z = (''sa4'', 40)) \<and>
   (9 \<le> z \<and> z < 11 \<longrightarrow> get_boundary z = (''sa3'', 20)) \<and>
   (11 \<le> z \<and> z < 14 \<longrightarrow> get_boundary z = (''sa2'', 15)) \<and>
   (14 \<le> z \<and> z < 17 \<longrightarrow> get_boundary z = (''sa1'', 10)) \<and>
   (17 \<le> z \<longrightarrow> get_boundary z = (''mb'', 3))"
  by (simp add: get_boundary_def)

theorem get_boundary_tier_table_witness:
  "get_boundary (-2) = (''ste'', 80) \<and> get_boundary 6 = (''ste'', 80) \<and>
   get_boundary 7 = (''sa4'', 40) \<and> get_boundary 10 = (''sa3'', 20) \<and>
   get_boundary 13 = (''sa2'', 15) \<and> get_boundary 16 = (''sa1'', 10) \<and>
   get_boundary 17 = (''mb'', 3) \<and> get_boundary 25 = (''mb'', 3)"
  using get_boundary_tier_table [of "-2"] get_boundary_tier_table [of 6]
    get_boundary_tier_table [of 7] get_boundary_tier_table [of 10]
    get_boundary_tier_table [of 13] get_boundary_tier_table [of 16]
    get_boundary_tier_table [of 17] get_boundary_tier_table [of 25]
  by simp

subsection \<open>The simplification tolerance\<close>





subsection \<open>The number of decimal places\<close>

lemma count_zeros_loop_stopped:
  "fst (count_zeros_loop s (p, ''don't do anything else'')) = p"
  by (induction s arbitrary: p) simp_all

lemma count_zeros_loop_counts:
  "fst (count_zeros_loop s (p, ''0'')) =
     p + int (length (takeWhile (\<lambda>c. c = CHR ''0'') s))"
  by (induction s arbitrary: p) (simp_all add: count_zeros_loop_stopped)

lemma get_decimal_places_takeWhile:
  "get_decimal_places z =
     1 + int (length (takeWhile (\<lambda>c. c = CHR ''0'') (scale_string z)))"
  by (simp add: get_decimal_places_def decimal_places_of_def scale_string_def
      count_zeros_loop_counts)

lemma fixed_digits_numeral:
  "fixed_digits (numeral k) n =
     fixed_digits (pred_numeral k) (n div 10) @ [digit_char (n mod 10)]"
  by (simp add: numeral_eq_Suc)

lemma degrees_per_pixel_closed:
  "degrees_per_pixel z =
     (39656652140679436173312 / 28200285970630886385175) / 2 powi z"
  by (simp add: degrees_per_pixel_def metres2degrees_def math_pi_def)

lemma scale_string_table:
  "map scale_string
     [0, 1, 2, 3, 4, 5, 6, 7, 8, 9, 10, 11, 12, 13, 14, 15, 16, 17, 18, 19, 20] =
    [''406250000'', ''703125000'', ''351562500'', ''175781250'', ''087890625'',
     ''043945312'', ''021972656'', ''010986328'', ''005493164'', ''002746582'',
     ''001373291'', ''000686646'', ''000343323'', ''000171661'', ''000085831'',
     ''000042915'', ''000021458'', ''000010729'', ''000005364'', ''000002682'',
     ''000001341'']"
  by (simp add: scale_string_def degrees_per_pixel_closed format_9f_fraction_def
      round_half_even_def fixed_digits_numeral digit_char_def)

lemma zoom_cases:
  assumes "0 \<le> z" "z \<le> 20"
  shows "z \<in> set [0, 1, 2, 3, 4, 5, 6, 7, 8, 9, 10,
                    11, 12, 13, 14, 15, 16, 17, 18, 19, 20::int]"
  using assms by simp presburger

lemma get_decimal_places_table:
  assumes "0 \<le> z" "z \<le> 20"
  shows "get_decimal_places z =
     [1, 1, 1, 1, 2, 2, 2, 2, 3, 3, 3, 4, 4, 4, 5, 5, 5, 5, 6, 6, 6] ! nat z"
  using zoom_cases [OF assms] scale_string_table
  by (auto simp: get_decimal_places_takeWhile)

lemma leading_zero_digits_table:
  assumes "0 \<le> z" "z \<le> 20"
  shows "leading_zero_digits (degrees_per_pixel z) (nat (get_decimal_places z - 1))"
  using zoom_cases [OF assms] scale_string_table
  by (auto simp: get_decimal_places_takeWhile leading_zero_digits_def decimal_digit_def
      degrees_per_pixel_closed)

lemma get_decimal_places_mono:
  assumes "0 \<le> z" "z \<le> z'" "z' \<le> 20"
  shows "get_decimal_places z \<le> get_decimal_places z'"
proof -
  let ?t = "[1, 1, 1, 1, 2, 2, 2, 2, 3, 3, 3, 4, 4, 4, 5, 5, 5, 5, 6, 6, 6::int]"
  have s: "sorted ?t" by simp
  have "?t ! nat z \<le> ?t ! nat z'"
    using assms by (intro sorted_nth_mono [OF s]) simp_all
  then show ?thesis
    using assms by (simp add: get_decimal_places_table)
qed

lemma round_half_even_bounds:
  "\<lfloor>x\<rfloor> \<le> round_half_even x" "round_half_even x \<le> \<lfloor>x\<rfloor> + 1"
  by (simp_all add: round_half_even_def Let_def)

lemma round_half_even_mono:
  assumes "x \<le> y"
  shows "round_half_even x \<le> round_half_even y"
proof (cases "\<lfloor>x\<rfloor> = \<lfloor>y\<rfloor>")
  case True
  then show ?thesis using assms by (auto simp: round_half_even_def Let_def)
next
  case False
  then have "\<lfloor>x\<rfloor> + 1 \<le> \<lfloor>y\<rfloor>"
    using floor_mono [OF assms] by simp
  then show ?thesis
    using round_half_even_bounds(2) [of x] round_half_even_bounds(1) [of y] by simp
qed

lemma fixed_digits_zero: "fixed_digits k 0 = replicate k CHR ''0''"
  by (induction k) (simp_all add: digit_char_def replicate_append_same)

lemma fixed_digits_split:
  "fixed_digits (j + m) n = fixed_digits j (n div 10 ^ m) @ fixed_digits m n"
proof (induction m arbitrary: n)
  case 0
  show ?case by simp
next
  case (Suc m)
  have "n div 10 div 10 ^ m = n div 10 ^ Suc m"
    by (simp add: zdiv_zmult2_eq)
  then show ?case using Suc [of "n div 10"] by simp
qed

lemma digit_char_nonzero:
  assumes "1 \<le> d" "d \<le> 9"
  shows "digit_char d \<noteq> CHR ''0''"
proof -
  have "d \<in> {1, 2, 3, 4, 5, 6, 7, 8, 9}" using assms by auto
  then show ?thesis by (auto simp: digit_char_def)
qed

lemma leading_digit:
  fixes n :: int
  assumes "10 ^ m \<le> n" "n < 10 ^ Suc m"
  shows "1 \<le> n div 10 ^ m \<and> n div 10 ^ m \<le> 9 \<and> n div 10 ^ Suc m = 0"
proof -
  have p: "(0::int) < 10 ^ m" by simp
  have "0 < n div 10 ^ m" using assms(1)
    by (subst pos_imp_zdiv_pos_iff) simp_all
  moreover have "n div 10 ^ m < 10"
  proof (rule ccontr)
    assume "\<not> n div 10 ^ m < 10"
    then have "10 \<le> n div 10 ^ m" by simp
    then have "10 * 10 ^ m \<le> (n div 10 ^ m) * 10 ^ m"
      by (intro mult_right_mono) simp_all
    also have "\<dots> \<le> n"
      using div_interval_iff [OF p, of n "n div 10 ^ m"] by simp
    finally show False using assms(2) by simp
  qed
  moreover have "n div 10 ^ Suc m = 0"
  proof (rule div_pos_pos_trivial)
    have "(0::int) \<le> 10 ^ m" by simp
    then show "0 \<le> n" using assms(1) by (rule order_trans)
    show "n < 10 ^ Suc m" by (rule assms(2))
  qed
  ultimately show ?thesis by simp
qed

lemma leading_zeros_of_digits:
  assumes "10 ^ m \<le> n" "n < 10 ^ Suc m"
  shows "takeWhile (\<lambda>c. c = CHR ''0'') (fixed_digits (j + Suc m) n) = replicate j CHR ''0''"
proof -
  note ld = leading_digit [OF assms]
  have "fixed_digits (Suc m) n = fixed_digits (1 + m) n" by simp
  also have "\<dots> = fixed_digits 1 (n div 10 ^ m) @ fixed_digits m n"
    by (rule fixed_digits_split)
  finally have s: "fixed_digits (Suc m) n = digit_char (n div 10 ^ m mod 10) # fixed_digits m n"
    by simp
  have "n div 10 ^ m mod 10 = n div 10 ^ m" using ld by simp
  then have nz: "digit_char (n div 10 ^ m mod 10) \<noteq> CHR ''0''"
    using digit_char_nonzero [of "n div 10 ^ m"] ld by simp
  have "fixed_digits (j + Suc m) n =
      replicate j CHR ''0'' @ digit_char (n div 10 ^ m mod 10) # fixed_digits m n"
    using ld by (simp only: fixed_digits_split [of j "Suc m" n] fixed_digits_zero s)
  then show ?thesis
    using nz by (simp add: takeWhile_append)
qed

lemma leading_zeros_nine:
  assumes "10 ^ m \<le> n" "n < 10 ^ Suc m" "m < 9"
  shows "length (takeWhile (\<lambda>c. c = CHR ''0'') (fixed_digits 9 n)) = 8 - m"
proof -
  have "(8 - m) + Suc m = 9" using assms(3) by simp
  then have "fixed_digits 9 n = fixed_digits ((8 - m) + Suc m) n" by simp
  then show ?thesis
    using leading_zeros_of_digits [OF assms(1,2), of "8 - m"] by simp
qed

lemma format_9f_fraction_between:
  assumes "0 \<le> lo" "lo \<le> d" "d \<le> hi"
  shows "\<exists>n. format_9f_fraction d = fixed_digits 9 (n mod 10 ^ 9) \<and>
             round_half_even (lo * 10 ^ 9) \<le> n \<and> n \<le> round_half_even (hi * 10 ^ 9)"
proof -
  have d: "\<bar>d\<bar> = d" using assms(1,2) by simp
  have "lo * 10 ^ 9 \<le> d * 10 ^ 9" "d * 10 ^ 9 \<le> hi * 10 ^ 9"
    using assms(2,3) by simp_all
  then have "round_half_even (lo * 10 ^ 9) \<le> round_half_even (d * 10 ^ 9)"
    "round_half_even (d * 10 ^ 9) \<le> round_half_even (hi * 10 ^ 9)"
    by (simp_all only: round_half_even_mono)
  then show ?thesis
    unfolding format_9f_fraction_def d by blast
qed

lemma decimal_places_of_range:
  assumes "0 \<le> lo" "lo \<le> d" "d \<le> hi"
    and "10 ^ m \<le> round_half_even (lo * 10 ^ 9)"
    and "round_half_even (hi * 10 ^ 9) < 10 ^ Suc m"
    and "m < 9"
  shows "decimal_places_of d = 9 - int m"
proof -
  obtain n where f: "format_9f_fraction d = fixed_digits 9 (n mod 10 ^ 9)"
    and "round_half_even (lo * 10 ^ 9) \<le> n" "n \<le> round_half_even (hi * 10 ^ 9)"
    using format_9f_fraction_between [OF assms(1,2,3)] by blast
  with assms(4,5) have b: "10 ^ m \<le> n" "n < 10 ^ Suc m"
    by (blast intro: order_trans le_less_trans)+
  have "(10::int) ^ Suc m \<le> 10 ^ 9"
    using assms(6) by (intro power_increasing) simp_all
  with b(2) have "n < 10 ^ 9" by (rule less_le_trans)
  moreover have "0 \<le> n"
    using b(1) by (rule order_trans [rotated]) simp
  ultimately have "n mod 10 ^ 9 = n" by (intro mod_pos_pos_trivial)
  then have "format_9f_fraction d = fixed_digits 9 n" using f by simp
  then show ?thesis
    using leading_zeros_nine [OF b assms(6)] assms(6)
    by (simp add: decimal_places_of_def count_zeros_loop_counts)
qed

lemma decimal_places_of_range_above_one:
  assumes "0 \<le> lo" "lo \<le> d" "d \<le> hi"
    and "1100000000 \<le> round_half_even (lo * 10 ^ 9)"
    and "round_half_even (hi * 10 ^ 9) < 2000000000"
  shows "decimal_places_of d = 1"
proof -
  obtain n where f: "format_9f_fraction d = fixed_digits 9 (n mod 10 ^ 9)"
    and "round_half_even (lo * 10 ^ 9) \<le> n" "n \<le> round_half_even (hi * 10 ^ 9)"
    using format_9f_fraction_between [OF assms(1,2,3)] by blast
  with assms(4,5) have b: "1100000000 \<le> n" "n < 2000000000"
    by linarith+
  have "n = 1000000000 * 1 + (n - 1000000000)" by simp
  moreover have "0 \<le> n - 1000000000" "n - 1000000000 < 1000000000" using b by simp_all
  ultimately have "n mod 1000000000 = n - 1000000000"
    by (rule int_mod_pos_eq)
  then have "format_9f_fraction d = fixed_digits 9 (n - 1000000000)" using f by simp
  moreover have "(10::int) ^ 8 \<le> n - 1000000000" "n - 1000000000 < 10 ^ Suc 8"
    using b by simp_all
  ultimately show ?thesis
    using leading_zeros_nine [of 8 "n - 1000000000"]
    by (simp add: decimal_places_of_def count_zeros_loop_counts)
qed

lemma near_bounds:
  fixes d x :: real
  assumes "\<bar>d - x\<bar> \<le> x / 10 ^ 6" "0 < x"
  shows "0 \<le> x * (999999 / 1000000)" "x * (999999 / 1000000) \<le> d"
    "d \<le> x * (1000001 / 1000000)"
proof -
  from assms(1) have "\<bar>d - x\<bar> \<le> x / 1000000" by simp
  then have a: "d - x \<le> x / 1000000" "- (d - x) \<le> x / 1000000"
    by (auto simp only: abs_le_iff)
  from a(2) show "x * (999999 / 1000000) \<le> d" by linarith
  from a(1) show "d \<le> x * (1000001 / 1000000)" by linarith
  show "0 \<le> x * (999999 / 1000000)" using assms(2) by simp
qed

lemma decimal_places_of_near:
  assumes "0 \<le> z" "z \<le> 20"
    and "\<bar>d - degrees_per_pixel z\<bar> \<le> degrees_per_pixel z / 10 ^ 6"
  shows "decimal_places_of d =
     [1, 1, 1, 1, 2, 2, 2, 2, 3, 3, 3, 4, 4, 4, 5, 5, 5, 5, 6, 6, 6] ! nat z"
proof -
  have p: "0 < degrees_per_pixel z"
    by (simp add: degrees_per_pixel_closed)
  note nb = near_bounds [OF assms(3) p]
  consider "z = 0" | "z \<in> {1, 2, 3}" | "z \<in> {4, 5, 6, 7}" | "z \<in> {8, 9, 10}"
    | "z \<in> {11, 12, 13}" | "z \<in> {14, 15, 16, 17}" | "z \<in> {18, 19, 20}"
    using zoom_cases [OF assms(1,2)] by auto
  then show ?thesis
  proof cases
    case 1
    then show ?thesis
      using decimal_places_of_range_above_one [OF nb]
      by (simp add: degrees_per_pixel_closed round_half_even_def)
  next
    case 2
    then show ?thesis
      using decimal_places_of_range [OF nb, of 8]
      by (auto simp: degrees_per_pixel_closed round_half_even_def)
  next
    case 3
    then show ?thesis
      using decimal_places_of_range [OF nb, of 7]
      by (auto simp: degrees_per_pixel_closed round_half_even_def)
  next
    case 4
    then show ?thesis
      using decimal_places_of_range [OF nb, of 6]
      by (auto simp: degrees_per_pixel_closed round_half_even_def)
  next
    case 5
    then show ?thesis
      using decimal_places_of_range [OF nb, of 5]
      by (auto simp: degrees_per_pixel_closed round_half_even_def)
  next
    case 6
    then show ?thesis
      using decimal_places_of_range [OF nb, of 4]
      by (auto simp: degrees_per_pixel_closed round_half_even_def)
  next
    case 7
    then show ?thesis
      using decimal_places_of_range [OF nb, of 3]
      by (auto simp: degrees_per_pixel_closed round_half_even_def)
  qed
qed

lemma scale_string_nth:
  assumes "0 \<le> z" "z \<le> 20"
  shows "scale_string z =
     [''406250000'', ''703125000'', ''351562500'', ''175781250'', ''087890625'',
      ''043945312'', ''021972656'', ''010986328'', ''005493164'', ''002746582'',
      ''001373291'', ''000686646'', ''000343323'', ''000171661'', ''000085831'',
      ''000042915'', ''000021458'', ''000010729'', ''000005364'', ''000002682'',
      ''000001341''] ! nat z"
  using zoom_cases [OF assms] scale_string_table by auto

text \<open>
  C7. \<open>get_decimal_places\<close> returns an integer that is at least 1 (for every zoom, so
  for every zoom from 0 to 20); between zoom 0 and zoom 20 it never decreases as the zoom
  grows; and its value is one plus the number of leading zero digits after the decimal
  point of the degrees-per-pixel value: one plus the number of leading zeros of the nine
  printed decimals for every zoom, which for every zoom from 0 to 20 is also the number of
  leading zero digits of the exact degrees-per-pixel value. The degrees per pixel are
  \<open>156543.03390625 / 2 ^ zoom\<close> metres divided by the metres of one degree, which is the
  quotient \<open>39656652140679436173312 / 28200285970630886385175\<close> (about 1.40625) halved
  \<open>zoom\<close> times. For the zooms 0 to 20 the nine printed decimals and the results are
  the two tables of the theorem: 1 place up to zoom 3, 2 up to zoom 7, 3 up to zoom 10,
  4 up to zoom 13, 5 up to zoom 17 and 6 up to zoom 20. On 0 to 20 the result does
  not hang on the last digits of that value: every value within a millionth part of it
  gives the same number of places, so an error of float arithmetic, which is far
  smaller, does not change it.
\<close>

theorem get_decimal_places_properties:
  "1 \<le> get_decimal_places z \<and>
   (0 \<le> z \<and> z \<le> z' \<and> z' \<le> 20 \<longrightarrow> get_decimal_places z \<le> get_decimal_places z') \<and>
   get_decimal_places z =
     1 + int (length (takeWhile (\<lambda>c. c = CHR ''0'') (scale_string z))) \<and>
   degrees_per_pixel z = (39656652140679436173312 / 28200285970630886385175) / 2 powi z \<and>
   (0 \<le> z \<and> z \<le> 20 \<longrightarrow>
      get_decimal_places z =
        [1, 1, 1, 1, 2, 2, 2, 2, 3, 3, 3, 4, 4, 4, 5, 5, 5, 5, 6, 6, 6] ! nat z \<and>
      scale_string z =
        [''406250000'', ''703125000'', ''351562500'', ''175781250'', ''087890625'',
         ''043945312'', ''021972656'', ''010986328'', ''005493164'', ''002746582'',
         ''001373291'', ''000686646'', ''000343323'', ''000171661'', ''000085831'',
         ''000042915'', ''000021458'', ''000010729'', ''000005364'', ''000002682'',
         ''000001341''] ! nat z \<and>
      leading_zero_digits (degrees_per_pixel z) (nat (get_decimal_places z - 1)) \<and>
      (\<forall>d. \<bar>d - degrees_per_pixel z\<bar> \<le> degrees_per_pixel z / 10 ^ 6 \<longrightarrow>
           decimal_places_of d = get_decimal_places z))"
proof -
  have "1 \<le> get_decimal_places z"
    by (simp add: get_decimal_places_takeWhile)
  moreover have "decimal_places_of d = get_decimal_places z"
    if "0 \<le> z" "z \<le> 20" "\<bar>d - degrees_per_pixel z\<bar> \<le> degrees_per_pixel z / 10 ^ 6" for d
    using decimal_places_of_near [OF that] get_decimal_places_table [OF that(1,2)] by simp
  ultimately show ?thesis
    using get_decimal_places_mono [of z z'] leading_zero_digits_table [of z]
      get_decimal_places_takeWhile [of z] degrees_per_pixel_closed [of z]
      get_decimal_places_table [of z] scale_string_nth [of z]
    by blast
qed

theorem get_decimal_places_properties_witness:
  "get_decimal_places 0 = 1 \<and> get_decimal_places 7 = 2 \<and>
   get_decimal_places 18 = 6 \<and> get_decimal_places 20 = 6 \<and>
   scale_string 7 = ''010986328'' \<and> scale_string 18 = ''000005364'' \<and>
   degrees_per_pixel 0 = 39656652140679436173312 / 28200285970630886385175 \<and>
   get_decimal_places 7 \<le> get_decimal_places 18 \<and>
   leading_zero_digits (degrees_per_pixel 7) (nat (get_decimal_places 7 - 1)) \<and>
   decimal_places_of (degrees_per_pixel 7) = get_decimal_places 7"
proof -
  have h: "(0::int) \<le> 7 \<and> (7::int) \<le> 18 \<and> (18::int) \<le> 20" "(0::int) \<le> 7 \<and> (7::int) \<le> 20"
    by simp_all
  have n: "\<bar>degrees_per_pixel 7 - degrees_per_pixel 7\<bar> \<le> degrees_per_pixel 7 / 10 ^ 6"
    by (simp add: degrees_per_pixel_closed)
  have t: "[1, 1, 1, 1, 2, 2, 2, 2, 3, 3, 3, 4, 4, 4, 5, 5, 5, 5, 6, 6, 6] ! nat 0 = (1::int)"
          "[1, 1, 1, 1, 2, 2, 2, 2, 3, 3, 3, 4, 4, 4, 5, 5, 5, 5, 6, 6, 6] ! nat 7 = (2::int)"
          "[1, 1, 1, 1, 2, 2, 2, 2, 3, 3, 3, 4, 4, 4, 5, 5, 5, 5, 6, 6, 6] ! nat 18 = (6::int)"
          "[1, 1, 1, 1, 2, 2, 2, 2, 3, 3, 3, 4, 4, 4, 5, 5, 5, 5, 6, 6, 6] ! nat 20 = (6::int)"
    by simp_all
  have u: "[''406250000'', ''703125000'', ''351562500'', ''175781250'', ''087890625'',
         ''043945312'', ''021972656'', ''010986328'', ''005493164'', ''002746582'',
         ''001373291'', ''000686646'', ''000343323'', ''000171661'', ''000085831'',
         ''000042915'', ''000021458'', ''000010729'', ''000005364'', ''000002682'',
         ''000001341''] ! nat 7 = ''010986328''"
       "[''406250000'', ''703125000'', ''351562500'', ''175781250'', ''087890625'',
         ''043945312'', ''021972656'', ''010986328'', ''005493164'', ''002746582'',
         ''001373291'', ''000686646'', ''000343323'', ''000171661'', ''000085831'',
         ''000042915'', ''000021458'', ''000010729'', ''000005364'', ''000002682'',
         ''000001341''] ! nat 18 = ''000005364''"
    by simp_all
  have z0: "get_decimal_places 0 = 1"
       and d0: "degrees_per_pixel 0 = 39656652140679436173312 / 28200285970630886385175"
    using get_decimal_places_properties [of 0 0] t(1) by simp_all
  have z7: "get_decimal_places 7 = 2" and s7: "scale_string 7 = ''010986328''"
    using get_decimal_places_properties [of 7 18] t(2) u(1) by simp_all
  have z18: "get_decimal_places 18 = 6" and s18: "scale_string 18 = ''000005364''"
    using get_decimal_places_properties [of 18 20] t(3) u(2) by simp_all
  have z20: "get_decimal_places 20 = 6"
    using get_decimal_places_properties [of 20 20] t(4) by simp
  from get_decimal_places_properties [of 7 18] h n
  have "get_decimal_places 7 \<le> get_decimal_places 18 \<and>
        leading_zero_digits (degrees_per_pixel 7) (nat (get_decimal_places 7 - 1)) \<and>
        decimal_places_of (degrees_per_pixel 7) = get_decimal_places 7"
    by blast
  then show ?thesis
    using z0 z7 z18 z20 s7 s18 d0 by blast
qed

subsection \<open>Rounding to the nearest double\<close>

text \<open>
  The bisection finds the binade of a number, so \<open>fl\<close> is the rounding to the nearest
  double: it is within half a unit in the last place of its argument, it leaves the
  doubles as they are (the integers up to \<open>2 ^ 53\<close> among them), and it is monotone.
  For integers \<open>0 \<le> a < 2 ^ 53\<close> and \<open>0 < b \<le> 2 ^ 53\<close> the rounded quotient
  \<open>fl (a / b)\<close> has the floor of the exact quotient, and it is below an integer exactly
  when the exact quotient is.
\<close>

lemma binade_search_numeral:
  "binade_search (numeral k) lo hi x =
     (if hi \<le> lo + 1 then lo
      else (let mid = (lo + hi) div 2
            in if 2 powi mid \<le> x then binade_search (pred_numeral k) mid hi x
               else binade_search (pred_numeral k) lo mid x))"
  by (simp add: numeral_eq_Suc)

lemmas fl_eval = fl_def float_exponent_def binade_search_numeral round_half_even_def Let_def

lemma binade_search_spec:
  assumes "lo < hi" "hi - lo \<le> 2 ^ n"
  shows "lo \<le> binade_search n lo hi x \<and> binade_search n lo hi x < hi \<and>
         (binade_search n lo hi x = lo \<or> 2 powi (binade_search n lo hi x) \<le> x) \<and>
         (binade_search n lo hi x + 1 = hi \<or> x < 2 powi (binade_search n lo hi x + 1))"
  using assms
proof (induction n arbitrary: lo hi)
  case 0
  then have "hi = lo + 1" by simp
  then show ?case by simp
next
  case (Suc n)
  show ?case
  proof (cases "hi \<le> lo + 1")
    case True
    then show ?thesis using Suc.prems by simp
  next
    case False
    define mid where "mid = (lo + hi) div 2"
    define p :: int where "p = 2 ^ n"
    have m: "lo < mid" "mid < hi"
      using False by (auto simp: mid_def)
    have "hi - lo \<le> 2 * p"
      using Suc.prems(2) by (simp add: p_def)
    then have "mid - lo \<le> p" "hi - mid \<le> p"
      unfolding mid_def by linarith+
    then have s: "mid - lo \<le> 2 ^ n" "hi - mid \<le> 2 ^ n"
      by (simp_all add: p_def)
    show ?thesis
    proof (cases "2 powi mid \<le> x")
      case True
      have eq: "binade_search (Suc n) lo hi x = binade_search n mid hi x"
        using False True by (simp add: mid_def Let_def)
      show ?thesis
        unfolding eq using Suc.IH [OF m(2) s(2)] m True by auto
    next
      case below: False
      have eq: "binade_search (Suc n) lo hi x = binade_search n lo mid x"
        using False below by (simp add: mid_def Let_def)
      show ?thesis
        unfolding eq using Suc.IH [OF m(1) s(1)] m below by auto
    qed
  qed
qed

lemma float_exponent_range: "- 1022 \<le> float_exponent x" "float_exponent x \<le> 1023"
  using binade_search_spec [of "- 1022" 1024 11 "\<bar>x\<bar>"] by (simp_all add: float_exponent_def)

lemma float_exponent_lower: "float_exponent x = - 1022 \<or> 2 powi (float_exponent x) \<le> \<bar>x\<bar>"
  using binade_search_spec [of "- 1022" 1024 11 "\<bar>x\<bar>"] by (simp add: float_exponent_def)

lemma float_exponent_upper: "float_exponent x = 1023 \<or> \<bar>x\<bar> < 2 powi (float_exponent x + 1)"
  using binade_search_spec [of "- 1022" 1024 11 "\<bar>x\<bar>"] by (auto simp add: float_exponent_def)

lemma float_exponent_minus [simp]: "float_exponent (- x) = float_exponent x"
  by (simp add: float_exponent_def)

lemma round_half_even_of_int [simp]: "round_half_even (of_int k) = k"
  by (simp add: round_half_even_def)

lemma round_half_even_minus: "round_half_even (- x) = - round_half_even x"
proof (cases "x \<in> \<int>")
  case True
  then obtain k where "x = of_int k" by (auto elim: Ints_cases)
  then show ?thesis
    using round_half_even_of_int [of "- k"] by simp
next
  case False
  then have ne: "x \<noteq> of_int \<lfloor>x\<rfloor>"
    by (metis Ints_of_int)
  then have f: "\<lfloor>- x\<rfloor> = - \<lfloor>x\<rfloor> - 1"
    by (simp add: floor_minus ceiling_altdef)
  have r: "0 < x - of_int \<lfloor>x\<rfloor>" "x - of_int \<lfloor>x\<rfloor> < 1"
    using ne of_int_floor_le [of x] by linarith+
  show ?thesis
    unfolding round_half_even_def Let_def f using r by (auto; linarith)
qed

lemma round_half_even_error: "\<bar>of_int (round_half_even x) - x\<bar> \<le> 1 / 2"
  unfolding round_half_even_def Let_def by (auto; linarith)


lemma ulp_pos [simp]: "0 < (2::real) powi n"
  by simp

lemma power_int_two_le_iff: "(2::real) powi m \<le> 2 powi n \<longleftrightarrow> m \<le> n"
proof
  assume le: "(2::real) powi m \<le> 2 powi n"
  show "m \<le> n"
  proof (rule ccontr)
    assume "\<not> m \<le> n"
    then have "(2::real) powi n < 2 powi m"
      by (intro power_int_strict_increasing) simp_all
    then show False using le by simp
  qed
next
  assume "m \<le> n"
  then show "(2::real) powi m \<le> 2 powi n"
    by (intro power_int_increasing) simp_all
qed

lemma power_int_two_less_iff: "(2::real) powi m < 2 powi n \<longleftrightarrow> m < n"
  by (metis linorder_not_le power_int_two_le_iff)

lemma power_int_two_nat: "0 \<le> n \<Longrightarrow> (2::real) powi n = of_int (2 ^ nat n)"
  by (simp add: power_int_def)

lemma power_int_two_split: "(2::real) powi (a - b) = 2 powi a / 2 powi b"
  by (simp add: power_int_diff)

lemma power_int_two_quotient:
  assumes "0 \<le> a - b"
  shows "(2::real) powi a / 2 powi b = of_int (2 ^ nat (a - b))"
  using assms power_int_two_split [of a b] power_int_two_nat [of "a - b"] by simp

lemma power_int_two_product:
  assumes "0 \<le> a - b"
  shows "real_of_int (2 ^ nat (a - b)) * 2 powi b = 2 powi a"
proof -
  have "real_of_int (2 ^ nat (a - b)) * 2 powi b = (2 powi a / 2 powi b) * 2 powi b"
    by (simp only: power_int_two_quotient [OF assms])
  then show ?thesis by simp
qed

lemma fl_minus: "fl (- x) = - fl x"
  by (simp add: fl_def Let_def round_half_even_minus)

lemma fl_zero [simp]: "fl 0 = 0"
  using round_half_even_of_int [of 0] by (simp add: fl_def Let_def)

lemma fl_error: "\<bar>fl x - x\<bar> \<le> 2 powi (float_exponent x - 53)"
proof -
  define u :: real where "u = 2 powi (float_exponent x - 52)"
  have u: "0 < u" by (simp add: u_def)
  have "fl x - x = (of_int (round_half_even (x / u)) - x / u) * u"
    using u by (simp add: fl_def u_def Let_def field_simps)
  then have "\<bar>fl x - x\<bar> = \<bar>of_int (round_half_even (x / u)) - x / u\<bar> * u"
    using u by (simp add: abs_mult)
  also have "\<dots> \<le> (1 / 2) * u"
    using round_half_even_error [of "x / u"] u by (intro mult_right_mono) simp_all
  also have "\<dots> = 2 powi (float_exponent x - 53)"
    using power_int_minus_mult [of "2::real" "float_exponent x - 52"]
    by (simp add: u_def)
  finally show ?thesis .
qed

lemma fl_error_relative: "\<bar>fl x - x\<bar> \<le> \<bar>x\<bar> / 2 ^ 53 + 2 powi (- 1075)"
proof -
  have b: "\<bar>fl x - x\<bar> \<le> 2 powi (float_exponent x - 53)"
    by (rule fl_error)
  from float_exponent_lower [of x] show ?thesis
  proof
    assume "float_exponent x = - 1022"
    then have "\<bar>fl x - x\<bar> \<le> 2 powi (- 1075)"
      using b by simp
    moreover have "0 \<le> \<bar>x\<bar> / 2 ^ 53" by simp
    ultimately show ?thesis by linarith
  next
    assume l: "2 powi float_exponent x \<le> \<bar>x\<bar>"
    have "(2::real) powi (float_exponent x - 53) = 2 powi float_exponent x / 2 ^ 53"
      by (simp add: power_int_two_split)
    also have "\<dots> \<le> \<bar>x\<bar> / 2 ^ 53"
      using l by (simp add: divide_right_mono)
    finally have "\<bar>fl x - x\<bar> \<le> \<bar>x\<bar> / 2 ^ 53"
      using b by linarith
    moreover have "0 \<le> (2::real) powi (- 1075)" by simp
    ultimately show ?thesis by linarith
  qed
qed

lemma fl_of_grid_quotient:
  assumes "x / 2 powi (float_exponent x - 52) = of_int m"
  shows "fl x = x"
proof -
  have "fl x = of_int m * 2 powi (float_exponent x - 52)"
    using assms by (simp add: fl_def Let_def)
  also have "\<dots> = x"
    using assms [symmetric] by simp
  finally show ?thesis .
qed

lemma fl_grid:
  assumes k: "\<bar>k\<bar> \<le> 2 ^ 53" and j: "- 1074 \<le> j"
  shows "fl (of_int k * 2 powi j) = of_int k * 2 powi j"
proof -
  define x :: real where "x = of_int k * 2 powi j"
  define e where "e = float_exponent x"
  have ax: "\<bar>x\<bar> = of_int \<bar>k\<bar> * 2 powi j"
    by (simp add: x_def abs_mult)
  have "\<exists>m. x / 2 powi (e - 52) = of_int m"
  proof (cases "e - 52 \<le> j")
    case True
    have "x / 2 powi (e - 52) = of_int k * 2 powi (j - (e - 52))"
      by (simp add: x_def power_int_two_split)
    also have "\<dots> = of_int (k * 2 ^ nat (j - (e - 52)))"
      using True by (simp add: power_int_two_nat)
    finally show ?thesis by blast
  next
    case False
    then have "e \<noteq> - 1022" using j by simp
    then have "2 powi e \<le> \<bar>x\<bar>"
      using float_exponent_lower [of x] by (simp add: e_def)
    then have l: "2 powi e \<le> of_int \<bar>k\<bar> * (2::real) powi j"
      by (simp add: ax)
    have "of_int \<bar>k\<bar> * (2::real) powi j \<le> 2 ^ 53 * 2 powi j"
    proof (rule mult_right_mono)
      have "real_of_int \<bar>k\<bar> \<le> real_of_int (2 ^ 53)"
        using k by (simp only: of_int_le_iff)
      then show "real_of_int \<bar>k\<bar> \<le> 2 ^ 53" by simp
    qed simp
    also have "\<dots> = 2 powi (j + 53)"
      by (simp add: power_int_add)
    finally have "(2::real) powi e \<le> 2 powi (j + 53)"
      using l by linarith
    then have "e \<le> j + 53"
      by (simp only: power_int_two_le_iff)
    then have e: "e = j + 53" using False by simp
    have "(2::real) powi (j + 53) = 2 ^ 53 * 2 powi j"
      by (simp add: power_int_add)
    then have "2 ^ 53 * (2::real) powi j \<le> of_int \<bar>k\<bar> * 2 powi j"
      using l e by simp
    then have "(2::real) ^ 53 \<le> of_int \<bar>k\<bar>"
      by simp
    then have "real_of_int (2 ^ 53) \<le> of_int \<bar>k\<bar>"
      by simp
    then have "2 ^ 53 \<le> \<bar>k\<bar>"
      by (simp only: of_int_le_iff)
    then have kk: "\<bar>k\<bar> = 2 ^ 53" using k by simp
    then have "even \<bar>k\<bar>" by simp
    then have "even k" by simp
    then obtain h where h: "k = 2 * h" by (auto elim: evenE)
    have "e - 52 = j + 1" using e by simp
    then have "(2::real) powi (e - 52) = 2 powi (j + 1)"
      by (simp only:)
    also have "\<dots> = 2 powi j * 2 powi 1"
      by (rule power_int_add) simp
    finally have "(2::real) powi (e - 52) = 2 * 2 powi j"
      by simp
    then have "x / 2 powi (e - 52) = of_int h"
      by (simp add: x_def h)
    then show ?thesis by blast
  qed
  then obtain m where "x / 2 powi (float_exponent x - 52) = of_int m"
    by (auto simp: e_def)
  then have "fl x = x" by (rule fl_of_grid_quotient)
  then show ?thesis by (simp add: x_def)
qed

lemma fl_of_int:
  assumes "\<bar>k\<bar> \<le> 2 ^ 53"
  shows "fl (of_int k) = of_int k"
  using fl_grid [OF assms, of 0] by simp

lemma round_half_even_abs_le:
  assumes "\<bar>x\<bar> \<le> of_int n"
  shows "\<bar>round_half_even x\<bar> \<le> n"
proof -
  have "round_half_even x \<le> round_half_even (of_int n)"
    using assms by (intro round_half_even_mono) linarith
  moreover have "round_half_even (of_int (- n)) \<le> round_half_even x"
    using assms by (intro round_half_even_mono) simp
  ultimately have "round_half_even x \<le> n" "- n \<le> round_half_even x"
    by (simp_all only: round_half_even_of_int)
  then show ?thesis by (simp add: abs_le_iff)
qed

lemma fl_idem [simp]: "fl (fl x) = fl x"
proof -
  define e where "e = float_exponent x"
  define u :: real where "u = 2 powi (e - 52)"
  define k where "k = round_half_even (x / u)"
  have u: "0 < u" by (simp add: u_def)
  have flx: "fl x = of_int k * 2 powi (e - 52)"
    by (simp add: fl_def Let_def k_def u_def e_def)
  have j: "- 1074 \<le> e - 52"
    using float_exponent_range(1) [of x] by (simp add: e_def)
  show ?thesis
  proof (cases "\<bar>k\<bar> \<le> 2 ^ 53")
    case True
    then show ?thesis
      unfolding flx using j by (rule fl_grid)
  next
    case False
    have "\<not> \<bar>x\<bar> < 2 powi (e + 1)"
    proof
      assume "\<bar>x\<bar> < 2 powi (e + 1)"
      then have "\<bar>x\<bar> / u < 2 powi (e + 1) / u"
        using u by (simp add: divide_strict_right_mono)
      also have "\<dots> = 2 ^ 53"
        using power_int_two_split [of "e + 1" "e - 52"] by (simp add: u_def)
      finally have "\<bar>x / u\<bar> \<le> of_int (2 ^ 53)"
        using u by simp
      then have "\<bar>k\<bar> \<le> 2 ^ 53"
        unfolding k_def by (rule round_half_even_abs_le)
      then show False using False by simp
    qed
    then have e: "e = 1023"
      using float_exponent_upper [of x] by (simp add: e_def)
    have big: "2 powi 1024 \<le> \<bar>fl x\<bar>"
    proof -
      have "(2::real) powi 1024 = of_int (2 ^ 53) * 2 powi (e - 52)"
        unfolding e using power_int_add [of "2::real" 53 971] by simp
      also have "\<dots> \<le> of_int \<bar>k\<bar> * 2 powi (e - 52)"
      proof (rule mult_right_mono)
        show "real_of_int (2 ^ 53) \<le> real_of_int \<bar>k\<bar>"
          using False by simp
      qed simp
      also have "\<dots> = \<bar>fl x\<bar>"
        by (simp add: flx abs_mult)
      finally show ?thesis .
    qed
    have "float_exponent (fl x) = 1023"
    proof (rule ccontr)
      assume n: "float_exponent (fl x) \<noteq> 1023"
      then have "\<bar>fl x\<bar> < 2 powi (float_exponent (fl x) + 1)"
        using float_exponent_upper [of "fl x"] by simp
      also have "\<dots> \<le> 2 powi 1024"
        using float_exponent_range(2) [of "fl x"] by (intro power_int_increasing) simp_all
      finally show False using big by simp
    qed
    then have "fl x / 2 powi (float_exponent (fl x) - 52) = of_int k"
      by (simp add: flx e)
    then show ?thesis by (rule fl_of_grid_quotient)
  qed
qed

lemma float_exponent_mono:
  assumes "\<bar>x\<bar> \<le> \<bar>y\<bar>"
  shows "float_exponent x \<le> float_exponent y"
proof (rule ccontr)
  assume "\<not> float_exponent x \<le> float_exponent y"
  then have lt: "float_exponent y < float_exponent x" by simp
  then have "float_exponent x \<noteq> - 1022" "float_exponent y \<noteq> 1023"
    using float_exponent_range(1) [of y] float_exponent_range(2) [of x] by simp_all
  then have "2 powi float_exponent x \<le> \<bar>x\<bar>" "\<bar>y\<bar> < 2 powi (float_exponent y + 1)"
    using float_exponent_lower [of x] float_exponent_upper [of y] by simp_all
  moreover have "(2::real) powi (float_exponent y + 1) \<le> 2 powi float_exponent x"
    using lt by (simp add: power_int_two_le_iff)
  ultimately show False using assms by linarith
qed

lemma fl_nonneg: "0 \<le> x \<Longrightarrow> 0 \<le> fl x"
proof -
  assume "0 \<le> x"
  then have "0 \<le> x / 2 powi (float_exponent x - 52)" by simp
  then have "round_half_even 0 \<le> round_half_even (x / 2 powi (float_exponent x - 52))"
    by (rule round_half_even_mono)
  then have "0 \<le> round_half_even (x / 2 powi (float_exponent x - 52))"
    using round_half_even_of_int [of 0] by simp
  then show ?thesis by (simp add: fl_def Let_def)
qed

lemma fl_mono_nonneg:
  assumes "0 \<le> x" "x \<le> y"
  shows "fl x \<le> fl y"
proof -
  define ex where "ex = float_exponent x"
  define ey where "ey = float_exponent y"
  have le: "ex \<le> ey"
    unfolding ex_def ey_def using assms by (intro float_exponent_mono) simp
  show ?thesis
  proof (cases "ex = ey")
    case True
    have "x / 2 powi (ey - 52) \<le> y / 2 powi (ey - 52)"
      using assms(2) by (simp add: divide_right_mono)
    then have "round_half_even (x / 2 powi (ey - 52)) \<le> round_half_even (y / 2 powi (ey - 52))"
      by (rule round_half_even_mono)
    then have "real_of_int (round_half_even (x / 2 powi (ey - 52))) * 2 powi (ey - 52)
                 \<le> real_of_int (round_half_even (y / 2 powi (ey - 52))) * 2 powi (ey - 52)"
      by (intro mult_right_mono) simp_all
    then show ?thesis
      using True by (simp add: fl_def Let_def ex_def ey_def)
  next
    case False
    then have lt: "ex < ey" using le by simp
    then have "ey \<noteq> - 1022" "ex \<noteq> 1023"
      using float_exponent_range(1) [of x] float_exponent_range(2) [of y]
      by (simp_all add: ex_def ey_def)
    then have ly: "2 powi ey \<le> y" and ux: "x < 2 powi (ex + 1)"
      using float_exponent_lower [of y] float_exponent_upper [of x] assms
      by (simp_all add: ex_def ey_def)
    have "(2::real) powi (ex + 1) \<le> 2 powi ey"
      using lt by (simp add: power_int_two_le_iff)
    then have xb: "x \<le> 2 powi ey" using ux by linarith
    have "x / 2 powi (ex - 52) \<le> 2 powi ey / 2 powi (ex - 52)"
      using xb by (simp add: divide_right_mono)
    also have "\<dots> = of_int (2 ^ nat (ey - (ex - 52)))"
      using lt by (intro power_int_two_quotient) simp
    finally have "round_half_even (x / 2 powi (ex - 52))
                    \<le> round_half_even (of_int (2 ^ nat (ey - (ex - 52))))"
      by (rule round_half_even_mono)
    then have "real_of_int (round_half_even (x / 2 powi (ex - 52)))
                 \<le> real_of_int (2 ^ nat (ey - (ex - 52)))"
      by (simp only: round_half_even_of_int of_int_le_iff)
    then have "real_of_int (round_half_even (x / 2 powi (ex - 52))) * 2 powi (ex - 52)
                 \<le> real_of_int (2 ^ nat (ey - (ex - 52))) * 2 powi (ex - 52)"
      by (intro mult_right_mono) simp_all
    also have "real_of_int (2 ^ nat (ey - (ex - 52))) * 2 powi (ex - 52) = 2 powi ey"
      using lt by (intro power_int_two_product) simp
    finally have fx: "fl x \<le> 2 powi ey"
      by (simp add: fl_def Let_def ex_def)
    have "of_int (2 ^ 52) = 2 powi ey / (2::real) powi (ey - 52)"
      using power_int_two_quotient [of ey "ey - 52"] by simp
    also have "\<dots> \<le> y / 2 powi (ey - 52)"
      using ly by (simp add: divide_right_mono)
    finally have "round_half_even (of_int (2 ^ 52)) \<le> round_half_even (y / 2 powi (ey - 52))"
      by (rule round_half_even_mono)
    then have "real_of_int (2 ^ 52) \<le> real_of_int (round_half_even (y / 2 powi (ey - 52)))"
      by (simp only: round_half_even_of_int of_int_le_iff)
    then have a: "real_of_int (2 ^ 52) * 2 powi (ey - 52)
                 \<le> real_of_int (round_half_even (y / 2 powi (ey - 52))) * 2 powi (ey - 52)"
      by (intro mult_right_mono) simp_all
    have b: "real_of_int (2 ^ 52) * 2 powi (ey - 52) = 2 powi ey"
      using power_int_two_product [of ey "ey - 52"] by simp
    have fy: "fl y = real_of_int (round_half_even (y / 2 powi (ey - 52))) * 2 powi (ey - 52)"
      by (simp add: fl_def Let_def ey_def)
    have "2 powi ey \<le> fl y"
      unfolding fy using a [unfolded b] .
    then show ?thesis using fx by linarith
  qed
qed

lemma fl_mono:
  assumes "x \<le> y"
  shows "fl x \<le> fl y"
proof (cases "0 \<le> x")
  case True
  then show ?thesis using assms by (rule fl_mono_nonneg)
next
  case neg: False
  show ?thesis
  proof (cases "0 \<le> y")
    case True
    have "0 \<le> fl (- x)" using neg by (intro fl_nonneg) simp
    then have "fl x \<le> 0" by (simp add: fl_minus)
    moreover have "0 \<le> fl y" using True by (rule fl_nonneg)
    ultimately show ?thesis by linarith
  next
    case False
    then have "fl (- y) \<le> fl (- x)"
      using assms by (intro fl_mono_nonneg) simp_all
    then show ?thesis by (simp add: fl_minus)
  qed
qed


lemma py_float_exact:
  assumes "\<bar>n\<bar> \<le> 2 ^ 53"
  shows "py_float n = Inr (of_int n)"
proof -
  have "real_of_int \<bar>n\<bar> \<le> real_of_int (2 ^ 53)"
    using assms by (simp only: of_int_le_iff)
  then have "\<bar>real_of_int n\<bar> < 2 ^ 1024" by simp
  then show ?thesis
    by (simp add: py_float_def fl_of_int [OF assms])
qed

lemma fl_quotient_ge_iff:
  fixes a b k :: int
  assumes a: "0 \<le> a" "a < 2 ^ 53" and b: "0 < b" "b \<le> 2 ^ 53"
  shows "of_int k \<le> fl (of_int a / of_int b) \<longleftrightarrow> of_int k \<le> (of_int a / of_int b :: real)"
proof
  define q :: real where "q = of_int a / of_int b"
  have q0: "0 \<le> q" using a b by (simp add: q_def)
  assume k: "of_int k \<le> (of_int a / of_int b :: real)"
  show "of_int k \<le> fl (of_int a / of_int b)"
  proof (cases "k \<le> 0")
    case True
    then have "real_of_int k \<le> 0" by simp
    also have "0 \<le> fl q" using q0 by (rule fl_nonneg)
    finally show ?thesis by (simp add: q_def)
  next
    case False
    have "q \<le> of_int a"
      using a b by (simp add: q_def field_simps mult_le_cancel_left1)
    then have "real_of_int k \<le> of_int a" using k by (simp add: q_def)
    then have "k \<le> a" by simp
    then have "\<bar>k\<bar> \<le> 2 ^ 53" using False a by simp
    then have "fl (of_int k) = of_int k" by (rule fl_of_int)
    moreover have "fl (of_int k) \<le> fl q"
      using k by (intro fl_mono) (simp add: q_def)
    ultimately show ?thesis by (simp add: q_def)
  qed
next
  define q :: real where "q = of_int a / of_int b"
  have q0: "0 \<le> q" using a b by (simp add: q_def)
  have bq: "of_int b * q = of_int a" using b by (simp add: q_def)
  assume k: "of_int k \<le> fl (of_int a / of_int b)"
  show "of_int k \<le> (of_int a / of_int b :: real)"
  proof (rule ccontr)
    assume "\<not> of_int k \<le> (of_int a / of_int b :: real)"
    then have "q < of_int k" by (simp add: q_def)
    then have "of_int b * q < of_int b * of_int k"
      using b by (simp add: mult_strict_left_mono)
    then have "real_of_int a < real_of_int (b * k)"
      by (simp add: bq)
    then have "a < b * k" by (simp only: of_int_less_iff)
    then have "a + 1 \<le> b * k" by simp
    then have "real_of_int (a + 1) \<le> real_of_int (b * k)"
      by (simp only: of_int_le_iff)
    then have "of_int b * q + 1 \<le> of_int b * real_of_int k"
      by (simp add: bq)
    then have "of_int b * (q + 1 / of_int b) \<le> of_int b * real_of_int k"
      using b by (simp add: algebra_simps)
    then have step: "q + 1 / of_int b \<le> real_of_int k"
      using b by (simp only: mult_le_cancel_left_pos of_int_0_less_iff)
    have b53: "real_of_int b \<le> 2 ^ 53"
    proof -
      have "real_of_int b \<le> real_of_int (2 ^ 53)"
        using b(2) by (simp only: of_int_le_iff)
      then show ?thesis by simp
    qed
    have err: "2 powi (float_exponent q - 53) < 1 / real_of_int b"
    proof -
      from float_exponent_lower [of q] show ?thesis
      proof
        assume e: "float_exponent q = - 1022"
        have "(2::real) powi (- 1075) < 2 powi (- 53)"
          by (simp add: power_int_two_less_iff)
        also have "\<dots> = 1 / 2 ^ 53"
          by (simp add: power_int_minus_divide)
        also have "\<dots> \<le> 1 / real_of_int b"
          using b b53 by (intro divide_left_mono) simp_all
        finally show ?thesis by (simp add: e)
      next
        assume "2 powi float_exponent q \<le> \<bar>q\<bar>"
        then have "2 powi float_exponent q \<le> q" using q0 by simp
        then have "of_int b * 2 powi float_exponent q \<le> of_int b * q"
          using b by (intro mult_left_mono) simp_all
        also have "\<dots> < 2 ^ 53"
        proof -
          have "real_of_int a < real_of_int (2 ^ 53)"
            using a(2) by (simp only: of_int_less_iff)
          then show ?thesis by (simp add: bq)
        qed
        finally have "of_int b * 2 powi float_exponent q < (2::real) ^ 53" .
        then have "2 powi float_exponent q < 2 ^ 53 / real_of_int b"
          using b by (simp add: field_simps)
        then have "2 powi float_exponent q / 2 ^ 53 < (2 ^ 53 / real_of_int b) / 2 ^ 53"
          by (intro divide_strict_right_mono) simp_all
        then show ?thesis
          by (simp add: power_int_two_split)
      qed
    qed
    have "fl q - q \<le> \<bar>fl q - q\<bar>" by simp
    also have "\<dots> \<le> 2 powi (float_exponent q - 53)" by (rule fl_error)
    finally have "fl q < q + 1 / real_of_int b" using err by linarith
    then have "fl q < real_of_int k" using step by linarith
    then show False using k by (simp add: q_def)
  qed
qed

lemma floor_fl_quotient:
  fixes a b :: int
  assumes "0 \<le> a" "a < 2 ^ 53" "0 < b" "b \<le> 2 ^ 53"
  shows "\<lfloor>fl (of_int a / of_int b)\<rfloor> = a div b"
proof -
  have "\<lfloor>fl (of_int a / of_int b)\<rfloor> = \<lfloor>(of_int a / of_int b :: real)\<rfloor>"
  proof (rule antisym)
    show "\<lfloor>fl (of_int a / of_int b)\<rfloor> \<le> \<lfloor>(of_int a / of_int b :: real)\<rfloor>"
      using fl_quotient_ge_iff [OF assms, of "\<lfloor>fl (of_int a / of_int b)\<rfloor>"]
      by (simp add: le_floor_iff)
    show "\<lfloor>(of_int a / of_int b :: real)\<rfloor> \<le> \<lfloor>fl (of_int a / of_int b)\<rfloor>"
      using fl_quotient_ge_iff [OF assms, of "\<lfloor>(of_int a / of_int b :: real)\<rfloor>"]
      by (simp add: le_floor_iff)
  qed
  then show ?thesis by (simp add: floor_divide_of_int_eq)
qed

lemma fl_quotient_less_iff:
  fixes a b k :: int
  assumes "0 \<le> a" "a < 2 ^ 53" "0 < b" "b \<le> 2 ^ 53"
  shows "fl (of_int a / of_int b) < of_int k \<longleftrightarrow> (of_int a / of_int b :: real) < of_int k"
  using fl_quotient_ge_iff [OF assms, of k] by (simp only: linorder_not_le [symmetric])

subsection \<open>The settings by census year\<close>

text \<open>
  C10. When the census year of the arguments is neither \<open>2016\<close> nor \<open>2011\<close>,
  \<open>get_settings\<close> returns \<open>None\<close>. When it is \<open>2016\<close> or \<open>2011\<close>,
  \<open>get_settings\<close> returns a settings dictionary that holds the region id field of that
  year, the three schema names of the arguments, and a list \<open>bdy_table_dicts\<close> that is
  not empty (18 entries for 2016, 21 for 2011).
\<close>

theorem get_settings_by_census_year:
  "(args.census_year a \<noteq> ''2016'' \<and> args.census_year a \<noteq> ''2011'' \<longrightarrow>
      get_settings environ script_dir a = None) \<and>
   (args.census_year a = ''2016'' \<or> args.census_year a = ''2011'' \<longrightarrow>
      (\<exists>s. get_settings environ script_dir a = Some s \<and>
           region_id_field s =
             (if args.census_year a = ''2016'' then ''aus_code_2016'' else ''region_id'') \<and>
           settings.data_schema s = args.data_schema a \<and>
           settings.boundary_schema s = args.boundary_schema a \<and>
           settings.web_schema s = args.web_schema a \<and>
           bdy_table_dicts s \<noteq> [] \<and>
           length (bdy_table_dicts s) =
             (if args.census_year a = ''2016'' then 18 else 21)))"
  by (auto simp add: get_settings_def Let_def)

theorem get_settings_by_census_year_witness:
  "get_settings Map.empty ''/opt/census-loader/web'' (default_args\<lparr>args.census_year := ''2021''\<rparr>)
     = None \<and>
   (\<exists>s. get_settings Map.empty ''/opt/census-loader/web'' default_args = Some s \<and>
        region_id_field s = ''aus_code_2016'' \<and>
        settings.data_schema s = ''census_2016_data'' \<and>
        length (bdy_table_dicts s) = 18) \<and>
   (\<exists>s. get_settings Map.empty ''/opt/census-loader/web''
          (default_args\<lparr>args.census_year := ''2011''\<rparr>) = Some s \<and>
        region_id_field s = ''region_id'' \<and>
        length (bdy_table_dicts s) = 21)"
  using get_settings_by_census_year
      [of "default_args\<lparr>args.census_year := ''2021''\<rparr>" Map.empty "''/opt/census-loader/web''"]
    get_settings_by_census_year [of default_args Map.empty "''/opt/census-loader/web''"]
    get_settings_by_census_year
      [of "default_args\<lparr>args.census_year := ''2011''\<rparr>" Map.empty "''/opt/census-loader/web''"]
  by (auto simp: default_args_def)

lemma default_settings_fields:
  "region_id_field default_settings = ''aus_code_2016''"
  "max_concurrent_processes default_settings = 3"
  by (simp_all add: default_settings_def get_settings_def default_args_def Let_def)

subsection \<open>Statements built by mogrify\<close>

lemma emit_simps [simp]:
  "emit a (Inr s) = Inr (a @ s)"
  "emit a (Inl ex) = Inl ex"
  "emit a (emit b r) = emit (a @ b) r"
  by (simp_all add: emit_def split: sum.splits)

lemma emit_Nil [simp]: "emit [] r = r"
  by (simp add: emit_def split: sum.splits)

lemma mogrify_plain:
  "CHR ''%'' \<notin> set r \<Longrightarrow> mogrify (r @ t) args = emit r (mogrify t args)"
  by (induction r) auto

lemma equal_count_sql_values:
  assumes "CHR ''%'' \<notin> set (region_id_field s)"
  shows "equal_count_sql dt bt sf n ''values'' s =
    Inr (''WITH classes AS (SELECT '' @ sf @ '' as val, ntile('' @ str_int n @
         '') OVER (ORDER BY '' @ sf @ '') AS class_id FROM '' @ dt @
         '' AS tab INNER JOIN '' @ bt @ '' AS bdy ON tab.'' @ region_id_field s @
         '' = bdy.id WHERE '' @ sf @ '' > 0.0 AND bdy.population > 5.0) '' @
         ''SELECT MAX(val) AS val, class_id FROM classes GROUP BY class_id ORDER BY class_id'')"
  using assms
  by (simp add: equal_count_sql_def mogrify_plain)

lemma equal_count_sql_percent:
  assumes "CHR ''%'' \<notin> set (region_id_field s)"
  shows "equal_count_sql dt bt sf n ''percent'' s =
    Inr (''WITH classes AS (SELECT '' @ sf @ '' as val, ntile(7) OVER (ORDER BY '' @ sf @
         '') AS class_id FROM '' @ dt @
         '' AS tab INNER JOIN '' @ bt @ '' AS bdy ON tab.'' @ region_id_field s @
         '' = bdy.id WHERE '' @ sf @ '' > 0.0 AND '' @ sf @
         '' < 100.0 AND bdy.population > 5.0) '' @
         ''SELECT MAX(val) AS val, class_id FROM classes GROUP BY class_id ORDER BY class_id'')"
  using assms
  by (simp add: equal_count_sql_def mogrify_plain)

subsection \<open>Equal-interval breakpoints\<close>

lemma interval_loop_numeral:
  "interval_loop (numeral k) c d out = interval_loop (pred_numeral k) (fl (c + d)) d (out @ [c])"
  by (simp add: numeral_eq_Suc)

lemma interval_loop_eq:
  "interval_loop k c d out = out @ map (\<lambda>i. ((\<lambda>x. fl (x + d)) ^^ i) c) [0..<k]"
proof (induction k arbitrary: c out)
  case 0
  show ?case by simp
next
  case (Suc k)
  have "map (\<lambda>i. ((\<lambda>x. fl (x + d)) ^^ i) c) [0..<Suc k] =
        c # map (\<lambda>i. ((\<lambda>x. fl (x + d)) ^^ i) (fl (c + d))) [0..<k]"
    by (simp add: upt_conv_Cons map_Suc_upt [symmetric] funpow_Suc_right del: upt_Suc funpow.simps)
  then show ?case
    using Suc.IH [of "fl (c + d)" "out @ [c]"] by simp
qed

lemma funpow_fl_double:
  assumes "fl c = c"
  shows "fl (((\<lambda>x. fl (x + d)) ^^ i) c) = ((\<lambda>x. fl (x + d)) ^^ i) c"
  using assms by (cases i) simp_all

lemma funpow_fl_ascending:
  assumes "fl c = c" "0 \<le> d"
  shows "((\<lambda>x. fl (x + d)) ^^ i) c \<le> ((\<lambda>x. fl (x + d)) ^^ Suc i) c"
proof -
  let ?x = "((\<lambda>x. fl (x + d)) ^^ i) c"
  have "fl ?x \<le> fl (?x + d)"
    using assms(2) by (intro fl_mono) simp
  then show ?thesis
    by (simp add: funpow_fl_double [OF assms(1)])
qed

lemma equal_interval_breaks_numbers:
  assumes "1 \<le> num_classes" "num_classes \<le> 2 ^ 53"
  shows "equal_interval_breaks (Some row) num_classes =
     (case map_of row ''min'' of
        None \<Rightarrow> Inl (Raised KeyError ''min'')
      | Some min_val \<Rightarrow>
          (case map_of row ''max'' of
             None \<Rightarrow> Inl (Raised KeyError ''max'')
           | Some max_val \<Rightarrow>
               (case (max_val, min_val) of
                  (Num mx, Num mn) \<Rightarrow>
                    Inr (interval_loop (nat num_classes) mn
                           (fl (fl (mx - mn) / of_int num_classes)) [])
                | _ \<Rightarrow> Inl (Raised TypeError ''unsupported operand type(s) for -''))))"
proof -
  have "py_float num_classes = Inr (of_int num_classes)"
    using assms by (intro py_float_exact) simp
  then show ?thesis
    using assms(1)
    by (simp add: equal_interval_breaks_def Let_def split: option.splits sql_value.splits)
qed

text \<open>
  C1. The claim: the equal-interval bins are exactly \<open>num_classes\<close> values, the
  \<open>i\<close>-th of them (from 0) being \<open>MIN + i * delta\<close> with
  \<open>delta = (MAX - MIN) / num_classes\<close>. The code adds \<open>delta\<close> to the running value
  once for each class, in floats, and each addition is rounded. With MIN 1, MAX 2 and 10
  classes it returns 1.0, 1.1, 1.2000000000000002, 1.3000000000000003 and so on: the
  third value is the double \<open>1351079888211149 / 2 ^ 50\<close>, which is neither the number
  \<open>1 + 2 * (1 / 10)\<close> nor the double 1.2 that the float evaluation of
  \<open>MIN + i * delta\<close> gives. With MIN 0, MAX 1 and 10 classes it returns 0.0, 0.1, 0.2,
  0.30000000000000004 and so on, and the step from the third value to the fourth is not
  the step from the second to the third. So the values are not the claimed ones, and
  not evenly spaced.
\<close>

theorem equal_interval_breakpoints_accumulate_rounding:
  "get_equal_interval_bins ''census_2016_data.ste_g01'' ''census_2016_web.ste'' ''g3'' 10
     ''values'' (\<lambda>q. Inr [[(''min'', Num 1), (''max'', Num 2)]]) default_settings
   = ([], Inr [1,
               2476979795053773 / 2251799813685248,
               1351079888211149 / 1125899906842624,
               2927339757790823 / 2251799813685248,
               788129934789837 / 562949953421312,
               3377699720527873 / 2251799813685248,
               1801439850948199 / 1125899906842624,
               3828059683264923 / 2251799813685248,
               506654958079181 / 281474976710656,
               4278419646001973 / 2251799813685248]) \<and>
   get_equal_interval_bins ''census_2016_data.ste_g01'' ''census_2016_web.ste'' ''g3'' 10
     ''values'' (\<lambda>q. Inr [[(''min'', Num 1), (''max'', Num 2)]]) default_settings
   \<noteq> ([], Inr (map (\<lambda>i. 1 + real i * ((2 - 1) / 10)) [0..<10])) \<and>
   get_equal_interval_bins ''census_2016_data.ste_g01'' ''census_2016_web.ste'' ''g3'' 10
     ''values'' (\<lambda>q. Inr [[(''min'', Num 1), (''max'', Num 2)]]) default_settings
   \<noteq> ([], Inr (map (\<lambda>i. fl (1 + fl (real i * fl (fl (2 - 1) / 10)))) [0..<10])) \<and>
   get_equal_interval_bins ''census_2016_data.ste_g01'' ''census_2016_web.ste'' ''g3'' 10
     ''values'' (\<lambda>q. Inr [[(''min'', Num 0), (''max'', Num 1)]]) default_settings
   = ([], Inr [0,
               3602879701896397 / 36028797018963968,
               3602879701896397 / 18014398509481984,
               1351079888211149 / 4503599627370496,
               3602879701896397 / 9007199254740992,
               1 / 2,
               5404319552844595 / 9007199254740992,
               3152519739159347 / 4503599627370496,
               7205759403792793 / 9007199254740992,
               2026619832316723 / 2251799813685248]) \<and>
   (1351079888211149 / 4503599627370496 - 3602879701896397 / 18014398509481984 :: real)
     \<noteq> 3602879701896397 / 18014398509481984 - 3602879701896397 / 36028797018963968"
proof -
  have r0: "get_equal_interval_bins ''census_2016_data.ste_g01'' ''census_2016_web.ste'' ''g3'' 10
     ''values'' (\<lambda>q. Inr [[(''min'', Num 0), (''max'', Num 1)]]) default_settings
   = ([], Inr [0,
               3602879701896397 / 36028797018963968,
               3602879701896397 / 18014398509481984,
               1351079888211149 / 4503599627370496,
               3602879701896397 / 9007199254740992,
               1 / 2,
               5404319552844595 / 9007199254740992,
               3152519739159347 / 4503599627370496,
               7205759403792793 / 9007199254740992,
               2026619832316723 / 2251799813685248])"
  proof -
    have d: "fl (fl 1 / 10) = 3602879701896397 / 36028797018963968"
      by (simp add: fl_eval)
    have b: "equal_interval_breaks (Some [(''min'', Num 0), (''max'', Num 1)]) 10 =
               Inr (interval_loop 10 0 (3602879701896397 / 36028797018963968) [])"
      using equal_interval_breaks_numbers [of 10 "[(''min'', Num 0), (''max'', Num 1)]"]
      by (simp add: d)
    have l: "interval_loop 10 0 (3602879701896397 / 36028797018963968) [] =
               [0,
                3602879701896397 / 36028797018963968,
                3602879701896397 / 18014398509481984,
                1351079888211149 / 4503599627370496,
                3602879701896397 / 9007199254740992,
                1 / 2,
                5404319552844595 / 9007199254740992,
                3152519739159347 / 4503599627370496,
                7205759403792793 / 9007199254740992,
                2026619832316723 / 2251799813685248]"
      by (simp add: interval_loop_numeral fl_eval)
    show ?thesis
      by (simp add: get_equal_interval_bins_def execute_def equal_interval_sql_def
          default_settings_fields fetchone_def b l)
  qed
  have r: "get_equal_interval_bins ''census_2016_data.ste_g01'' ''census_2016_web.ste'' ''g3'' 10
     ''values'' (\<lambda>q. Inr [[(''min'', Num 1), (''max'', Num 2)]]) default_settings
   = ([], Inr [1,
               2476979795053773 / 2251799813685248,
               1351079888211149 / 1125899906842624,
               2927339757790823 / 2251799813685248,
               788129934789837 / 562949953421312,
               3377699720527873 / 2251799813685248,
               1801439850948199 / 1125899906842624,
               3828059683264923 / 2251799813685248,
               506654958079181 / 281474976710656,
               4278419646001973 / 2251799813685248])"
  proof -
    have d: "fl (fl 1 / 10) = 3602879701896397 / 36028797018963968"
      by (simp add: fl_eval)
    have b: "equal_interval_breaks (Some [(''min'', Num 1), (''max'', Num 2)]) 10 =
               Inr (interval_loop 10 1 (3602879701896397 / 36028797018963968) [])"
      using equal_interval_breaks_numbers [of 10 "[(''min'', Num 1), (''max'', Num 2)]"]
      by (simp add: d)
    have l: "interval_loop 10 1 (3602879701896397 / 36028797018963968) [] =
               [1,
                2476979795053773 / 2251799813685248,
                1351079888211149 / 1125899906842624,
                2927339757790823 / 2251799813685248,
                788129934789837 / 562949953421312,
                3377699720527873 / 2251799813685248,
                1801439850948199 / 1125899906842624,
                3828059683264923 / 2251799813685248,
                506654958079181 / 281474976710656,
                4278419646001973 / 2251799813685248]"
      by (simp add: interval_loop_numeral fl_eval)
    show ?thesis
      by (simp add: get_equal_interval_bins_def execute_def equal_interval_sql_def
          default_settings_fields fetchone_def b l)
  qed
  have e: "map (\<lambda>i. 1 + real i * ((2 - 1) / 10)) [0..<10] ! 2 = 6 / 5"
    by simp
  have f: "map (\<lambda>i. fl (1 + fl (real i * fl (fl (2 - 1) / 10)))) [0..<10] ! 2
             = 5404319552844595 / 4503599627370496"
    by simp (simp add: fl_eval)
  have "[1, 2476979795053773 / 2251799813685248, 1351079888211149 / 1125899906842624,
         2927339757790823 / 2251799813685248, 788129934789837 / 562949953421312,
         3377699720527873 / 2251799813685248, 1801439850948199 / 1125899906842624,
         3828059683264923 / 2251799813685248, 506654958079181 / 281474976710656,
         4278419646001973 / 2251799813685248 :: real] ! 2 \<noteq> 6 / 5"
    by simp
  then have ne1: "[1, 2476979795053773 / 2251799813685248, 1351079888211149 / 1125899906842624,
         2927339757790823 / 2251799813685248, 788129934789837 / 562949953421312,
         3377699720527873 / 2251799813685248, 1801439850948199 / 1125899906842624,
         3828059683264923 / 2251799813685248, 506654958079181 / 281474976710656,
         4278419646001973 / 2251799813685248 :: real]
       \<noteq> map (\<lambda>i. 1 + real i * ((2 - 1) / 10)) [0..<10]"
    using e by metis
  have "[1, 2476979795053773 / 2251799813685248, 1351079888211149 / 1125899906842624,
         2927339757790823 / 2251799813685248, 788129934789837 / 562949953421312,
         3377699720527873 / 2251799813685248, 1801439850948199 / 1125899906842624,
         3828059683264923 / 2251799813685248, 506654958079181 / 281474976710656,
         4278419646001973 / 2251799813685248 :: real] ! 2 \<noteq> 5404319552844595 / 4503599627370496"
    by simp
  then have ne2: "[1, 2476979795053773 / 2251799813685248, 1351079888211149 / 1125899906842624,
         2927339757790823 / 2251799813685248, 788129934789837 / 562949953421312,
         3377699720527873 / 2251799813685248, 1801439850948199 / 1125899906842624,
         3828059683264923 / 2251799813685248, 506654958079181 / 281474976710656,
         4278419646001973 / 2251799813685248 :: real]
       \<noteq> map (\<lambda>i. fl (1 + fl (real i * fl (fl (2 - 1) / 10)))) [0..<10]"
    using f by metis
  have u: "(1351079888211149 / 4503599627370496 - 3602879701896397 / 18014398509481984 :: real)
     \<noteq> 3602879701896397 / 18014398509481984 - 3602879701896397 / 36028797018963968"
    by simp
  show ?thesis
    unfolding r r0 using ne1 ne2 u by simp
qed

text \<open>
  C1, as the code has it. When the equal-interval query succeeds and the fetched row
  holds the floats \<open>mn\<close> and \<open>mx\<close> as MIN and MAX, \<open>get_equal_interval_bins\<close> with a
  class count \<open>num_classes\<close> of at least 1 (and at most \<open>2 ^ 53\<close>, so that
  \<^verbatim>\<open>float(num_classes)\<close> is the count itself) prints nothing and returns exactly
  \<open>num_classes\<close> values. The first is \<open>mn\<close>. Each following value is the double
  nearest to the sum of the value before it and \<open>delta\<close>, where \<open>delta\<close> is the
  double nearest to the quotient of the double nearest to \<open>mx - mn\<close> by the class
  count; so it differs from that sum by at most the \<open>2 ^ 53\<close>-th part of the sum (plus
  \<open>2 ^ -1075\<close>, for the smallest numbers). When \<open>mn\<close> is a double and
  \<open>mn \<le> mx\<close>, the values ascend. With 4 classes, MIN 0 and MAX 100 the values are
  \<open>[0, 25, 50, 75]\<close>, the instance stated after the theorem.
\<close>

theorem equal_interval_breakpoints_rounded:
  assumes "execute pg_cur (equal_interval_sql data_table boundary_table stat_field map_type
             settings) = Inr (row # rows)"
    and "map_of row ''min'' = Some (Num mn)"
    and "map_of row ''max'' = Some (Num mx)"
    and "1 \<le> num_classes"
    and "num_classes \<le> 2 ^ 53"
  shows "\<exists>bins.
           get_equal_interval_bins data_table boundary_table stat_field num_classes map_type
             pg_cur settings = ([], Inr bins) \<and>
           int (length bins) = num_classes \<and>
           bins ! 0 = mn \<and>
           (\<forall>i. Suc i < length bins \<longrightarrow>
              bins ! Suc i = fl (bins ! i + fl (fl (mx - mn) / of_int num_classes)) \<and>
              \<bar>bins ! Suc i - (bins ! i + fl (fl (mx - mn) / of_int num_classes))\<bar>
                \<le> \<bar>bins ! i + fl (fl (mx - mn) / of_int num_classes)\<bar> / 2 ^ 53
                    + 2 powi (- 1075)) \<and>
           (fl mn = mn \<and> mn \<le> mx \<longrightarrow> sorted bins)"
proof -
  define delta where "delta = fl (fl (mx - mn) / of_int num_classes)"
  define bins where "bins = map (\<lambda>i. ((\<lambda>x. fl (x + delta)) ^^ i) mn) [0..<nat num_classes]"
  have res: "get_equal_interval_bins data_table boundary_table stat_field num_classes map_type
               pg_cur settings = ([], Inr bins)"
    using assms(1,2,3)
    by (simp add: get_equal_interval_bins_def fetchone_def
        equal_interval_breaks_numbers [OF assms(4,5)] interval_loop_eq bins_def delta_def)
  have len: "int (length bins) = num_classes"
    using assms(4) by (simp add: bins_def)
  have first: "bins ! 0 = mn"
    using assms(4) by (simp add: bins_def)
  have nth: "bins ! i = ((\<lambda>x. fl (x + delta)) ^^ i) mn" if "i < length bins" for i
    using that by (simp add: bins_def)
  have step: "bins ! Suc i = fl (bins ! i + delta)" if "Suc i < length bins" for i
    using that nth [of i] nth [of "Suc i"] by simp
  have err: "\<bar>bins ! Suc i - (bins ! i + delta)\<bar>
               \<le> \<bar>bins ! i + delta\<bar> / 2 ^ 53 + 2 powi (- 1075)" if "Suc i < length bins" for i
    unfolding step [OF that] by (rule fl_error_relative)
  have asc: "sorted bins" if "fl mn = mn \<and> mn \<le> mx"
  proof -
    have "0 \<le> fl (mx - mn)" using that by (intro fl_nonneg) simp
    then have "0 \<le> fl (mx - mn) / of_int num_classes"
      using assms(4) by simp
    then have d: "0 \<le> delta"
      unfolding delta_def by (rule fl_nonneg)
    have "bins ! i \<le> bins ! Suc i" if "Suc i < length bins" for i
      using funpow_fl_ascending [of mn delta i] \<open>fl mn = mn \<and> mn \<le> mx\<close> d that
        nth [of i] nth [of "Suc i"] by simp
    then show ?thesis
      by (simp add: sorted_iff_nth_Suc)
  qed
  show ?thesis
    using res len first step err asc unfolding delta_def by blast
qed

theorem equal_interval_breakpoints_rounded_witness:
  "get_equal_interval_bins ''census_2016_data.ste_g01'' ''census_2016_web.ste'' ''g3'' 4
     ''values'' (\<lambda>q. Inr [[(''min'', Num 0), (''max'', Num 100)]]) default_settings
   = ([], Inr [0, 25, 50, 75]) \<and> sorted [0, 25, 50, 75 :: real]"
proof -
  have d: "fl (fl (100 - 0) / real_of_int 4) = 25"
    by (simp add: fl_eval)
  have s: "fl (0 + 25) = 25" "fl (25 + 25) = 50" "fl (50 + 25) = 75"
    by (simp_all add: fl_eval)
  have h: "(1::int) \<le> 4" "(4::int) \<le> 2 ^ 53" "fl 0 = 0 \<and> (0::real) \<le> 100"
    by simp_all
  from equal_interval_breakpoints_rounded
    [of "\<lambda>q. Inr [[(''min'', Num 0), (''max'', Num 100)]]" "''census_2016_data.ste_g01''"
      "''census_2016_web.ste''" "''g3''" "''values''" default_settings
      "[(''min'', Num 0), (''max'', Num 100)]" "[]" 0 100 4]
  obtain bins where
    r: "get_equal_interval_bins ''census_2016_data.ste_g01'' ''census_2016_web.ste'' ''g3'' 4
          ''values'' (\<lambda>q. Inr [[(''min'', Num 0), (''max'', Num 100)]]) default_settings
        = ([], Inr bins)"
    and l: "int (length bins) = 4"
    and f: "bins ! 0 = 0"
    and st: "\<forall>i. Suc i < length bins \<longrightarrow>
               bins ! Suc i = fl (bins ! i + fl (fl (100 - 0) / real_of_int 4))"
    and so: "sorted bins"
    using h by (auto simp add: execute_def equal_interval_sql_def default_settings_fields)
  have n: "length bins = 4" using l by simp
  have b1: "bins ! Suc 0 = 25"
    using st [rule_format, of 0] n f d s by simp
  have b2: "bins ! Suc (Suc 0) = 50"
    using st [rule_format, of "Suc 0"] n b1 d s by simp
  have b3: "bins ! Suc (Suc (Suc 0)) = 75"
    using st [rule_format, of "Suc (Suc 0)"] n b2 d s by simp
  have "bins = [0, 25, 50, 75]"
  proof (rule nth_equalityI)
    show "length bins = length [0, 25, 50, 75 :: real]"
      using n by simp
  next
    fix i
    assume "i < length bins"
    then have "i = 0 \<or> i = Suc 0 \<or> i = Suc (Suc 0) \<or> i = Suc (Suc (Suc 0))"
      using n by arith
    then show "bins ! i = [0, 25, 50, 75] ! i"
      using f b1 b2 b3 by auto
  qed
  then show ?thesis using r so by simp
qed

text \<open>
  Outside the counts the claim speaks of: with a class count of 0 the division by
  \<^verbatim>\<open>float(num_classes)\<close> raises, and a negative count gives the empty list.
\<close>

lemma equal_interval_no_classes:
  assumes "execute pg_cur (equal_interval_sql data_table boundary_table stat_field map_type
             settings) = Inr (row # rows)"
    and "map_of row ''min'' = Some (Num mn)"
    and "map_of row ''max'' = Some (Num mx)"
  shows "get_equal_interval_bins data_table boundary_table stat_field 0 map_type pg_cur settings
         = ([], Inl (Raised ZeroDivisionError ''float division by zero''))"
    and "num_classes < 0 \<Longrightarrow> - (2 ^ 53) \<le> num_classes \<Longrightarrow>
         get_equal_interval_bins data_table boundary_table stat_field num_classes map_type
           pg_cur settings = ([], Inr [])"
proof -
  have "py_float 0 = Inr 0"
    using py_float_exact [of 0] by simp
  then show "get_equal_interval_bins data_table boundary_table stat_field 0 map_type pg_cur
               settings
             = ([], Inl (Raised ZeroDivisionError ''float division by zero''))"
    using assms by (simp add: get_equal_interval_bins_def fetchone_def equal_interval_breaks_def)
next
  assume n: "num_classes < 0" "- (2 ^ 53) \<le> num_classes"
  then have "py_float num_classes = Inr (of_int num_classes)"
    by (intro py_float_exact) simp
  then show "get_equal_interval_bins data_table boundary_table stat_field num_classes map_type
               pg_cur settings = ([], Inr [])"
    using assms n
    by (simp add: get_equal_interval_bins_def fetchone_def equal_interval_breaks_def Let_def)
qed

subsection \<open>Equal-count quantile buckets\<close>

text \<open>
  C2. With map type \<open>percent\<close>, the statement \<open>get_equal_count_bins\<close> issues is the
  same for every \<open>num_classes\<close>, and so is the whole result of the function: the bucket
  count in the statement is the fixed \<open>ntile(7)\<close>. With map type \<open>values\<close> the
  statement holds \<open>ntile(num_classes)\<close>. The function prints that statement and passes
  it to the cursor: its result is the printed statement with the values of the rows the
  cursor yields for it, or with the failure line and the empty list when the cursor
  raises on it. The two texts are given for a region id field without a percent sign,
  which \<open>mogrify\<close> would read as a placeholder.
\<close>

theorem equal_count_percent_ignores_num_classes:
  "equal_count_sql dt bt sf n ''percent'' s = equal_count_sql dt bt sf m ''percent'' s \<and>
   get_equal_count_bins dt bt sf n ''percent'' pg_cur s =
     get_equal_count_bins dt bt sf m ''percent'' pg_cur s \<and>
   (CHR ''%'' \<notin> set (region_id_field s) \<longrightarrow>
      equal_count_sql dt bt sf n ''percent'' s =
        Inr (''WITH classes AS (SELECT '' @ sf @ '' as val, ntile(7) OVER (ORDER BY '' @ sf @
             '') AS class_id FROM '' @ dt @
             '' AS tab INNER JOIN '' @ bt @ '' AS bdy ON tab.'' @ region_id_field s @
             '' = bdy.id WHERE '' @ sf @ '' > 0.0 AND '' @ sf @
             '' < 100.0 AND bdy.population > 5.0) '' @
             ''SELECT MAX(val) AS val, class_id FROM classes GROUP BY class_id ORDER BY class_id'') \<and>
      equal_count_sql dt bt sf n ''values'' s =
        Inr (''WITH classes AS (SELECT '' @ sf @ '' as val, ntile('' @ str_int n @
             '') OVER (ORDER BY '' @ sf @ '') AS class_id FROM '' @ dt @
             '' AS tab INNER JOIN '' @ bt @ '' AS bdy ON tab.'' @ region_id_field s @
             '' = bdy.id WHERE '' @ sf @ '' > 0.0 AND bdy.population > 5.0) '' @
             ''SELECT MAX(val) AS val, class_id FROM classes GROUP BY class_id ORDER BY class_id'') \<and>
      (let percent_sql =
             ''WITH classes AS (SELECT '' @ sf @ '' as val, ntile(7) OVER (ORDER BY '' @ sf @
             '') AS class_id FROM '' @ dt @
             '' AS tab INNER JOIN '' @ bt @ '' AS bdy ON tab.'' @ region_id_field s @
             '' = bdy.id WHERE '' @ sf @ '' > 0.0 AND '' @ sf @
             '' < 100.0 AND bdy.population > 5.0) '' @
             ''SELECT MAX(val) AS val, class_id FROM classes GROUP BY class_id ORDER BY class_id''
       in get_equal_count_bins dt bt sf n ''percent'' pg_cur s =
            (case pg_cur percent_sql of
               Inl ex \<Rightarrow>
                 ([PrintBytes percent_sql,
                   PrintStr (dt @ '' - '' @ sf @ '' Failed: '' @ error_text ex)], Inr [])
             | Inr rows \<Rightarrow> ([PrintBytes percent_sql], collect_val rows []))) \<and>
      (let values_sql =
             ''WITH classes AS (SELECT '' @ sf @ '' as val, ntile('' @ str_int n @
             '') OVER (ORDER BY '' @ sf @ '') AS class_id FROM '' @ dt @
             '' AS tab INNER JOIN '' @ bt @ '' AS bdy ON tab.'' @ region_id_field s @
             '' = bdy.id WHERE '' @ sf @ '' > 0.0 AND bdy.population > 5.0) '' @
             ''SELECT MAX(val) AS val, class_id FROM classes GROUP BY class_id ORDER BY class_id''
       in get_equal_count_bins dt bt sf n ''values'' pg_cur s =
            (case pg_cur values_sql of
               Inl ex \<Rightarrow>
                 ([PrintBytes values_sql,
                   PrintStr (dt @ '' - '' @ sf @ '' Failed: '' @ error_text ex)], Inr [])
             | Inr rows \<Rightarrow> ([PrintBytes values_sql], collect_val rows []))))"
proof -
  have q: "equal_count_sql dt bt sf n ''percent'' s = equal_count_sql dt bt sf m ''percent'' s"
    by (simp add: equal_count_sql_def)
  have g: "get_equal_count_bins dt bt sf n ''percent'' pg_cur s =
      get_equal_count_bins dt bt sf m ''percent'' pg_cur s"
    by (simp add: get_equal_count_bins_def q)
  have p: "let percent_sql =
             ''WITH classes AS (SELECT '' @ sf @ '' as val, ntile(7) OVER (ORDER BY '' @ sf @
             '') AS class_id FROM '' @ dt @
             '' AS tab INNER JOIN '' @ bt @ '' AS bdy ON tab.'' @ region_id_field s @
             '' = bdy.id WHERE '' @ sf @ '' > 0.0 AND '' @ sf @
             '' < 100.0 AND bdy.population > 5.0) '' @
             ''SELECT MAX(val) AS val, class_id FROM classes GROUP BY class_id ORDER BY class_id''
       in get_equal_count_bins dt bt sf n ''percent'' pg_cur s =
            (case pg_cur percent_sql of
               Inl ex \<Rightarrow>
                 ([PrintBytes percent_sql,
                   PrintStr (dt @ '' - '' @ sf @ '' Failed: '' @ error_text ex)], Inr [])
             | Inr rows \<Rightarrow> ([PrintBytes percent_sql], collect_val rows []))"
    if "CHR ''%'' \<notin> set (region_id_field s)"
    by (simp add: Let_def get_equal_count_bins_def equal_count_sql_percent [OF that]
        failed_message_def split: sum.splits)
  have v: "let values_sql =
             ''WITH classes AS (SELECT '' @ sf @ '' as val, ntile('' @ str_int n @
             '') OVER (ORDER BY '' @ sf @ '') AS class_id FROM '' @ dt @
             '' AS tab INNER JOIN '' @ bt @ '' AS bdy ON tab.'' @ region_id_field s @
             '' = bdy.id WHERE '' @ sf @ '' > 0.0 AND bdy.population > 5.0) '' @
             ''SELECT MAX(val) AS val, class_id FROM classes GROUP BY class_id ORDER BY class_id''
       in get_equal_count_bins dt bt sf n ''values'' pg_cur s =
            (case pg_cur values_sql of
               Inl ex \<Rightarrow>
                 ([PrintBytes values_sql,
                   PrintStr (dt @ '' - '' @ sf @ '' Failed: '' @ error_text ex)], Inr [])
             | Inr rows \<Rightarrow> ([PrintBytes values_sql], collect_val rows []))"
    if "CHR ''%'' \<notin> set (region_id_field s)"
    by (simp add: Let_def get_equal_count_bins_def equal_count_sql_values [OF that]
        failed_message_def split: sum.splits)
  show ?thesis
    using q g p v equal_count_sql_percent [of s dt bt sf n] equal_count_sql_values [of s dt bt sf n]
    by blast
qed

theorem equal_count_percent_ignores_num_classes_witness:
  "get_equal_count_bins ''census_2016_data.ste_g01'' ''census_2016_web.ste'' ''g3'' 5 ''percent''
     (\<lambda>q. if q = ''WITH classes AS (SELECT g3 as val, ntile(7) OVER (ORDER BY g3) AS class_id '' @
                   ''FROM census_2016_data.ste_g01 AS tab '' @
                   ''INNER JOIN census_2016_web.ste AS bdy ON tab.aus_code_2016 = bdy.id '' @
                   ''WHERE g3 > 0.0 AND g3 < 100.0 AND bdy.population > 5.0) '' @
                   ''SELECT MAX(val) AS val, class_id FROM classes GROUP BY class_id ORDER BY class_id''
           then Inr [[(''val'', Num 12), (''class_id'', Num 1)],
                     [(''val'', Num 40), (''class_id'', Num 2)]]
           else Inl (Raised DatabaseError ''another statement''))
     default_settings
   = ([PrintBytes
         (''WITH classes AS (SELECT g3 as val, ntile(7) OVER (ORDER BY g3) AS class_id '' @
          ''FROM census_2016_data.ste_g01 AS tab '' @
          ''INNER JOIN census_2016_web.ste AS bdy ON tab.aus_code_2016 = bdy.id '' @
          ''WHERE g3 > 0.0 AND g3 < 100.0 AND bdy.population > 5.0) '' @
          ''SELECT MAX(val) AS val, class_id FROM classes GROUP BY class_id ORDER BY class_id'')],
      Inr [Num 12, Num 40]) \<and>
   get_equal_count_bins ''census_2016_data.ste_g01'' ''census_2016_web.ste'' ''g3'' 5 ''values''
     (\<lambda>q. if q = ''WITH classes AS (SELECT g3 as val, ntile(5) OVER (ORDER BY g3) AS class_id '' @
                   ''FROM census_2016_data.ste_g01 AS tab '' @
                   ''INNER JOIN census_2016_web.ste AS bdy ON tab.aus_code_2016 = bdy.id '' @
                   ''WHERE g3 > 0.0 AND bdy.population > 5.0) '' @
                   ''SELECT MAX(val) AS val, class_id FROM classes GROUP BY class_id ORDER BY class_id''
           then Inr [[(''val'', Num 12), (''class_id'', Num 1)],
                     [(''val'', Num 40), (''class_id'', Num 2)]]
           else Inl (Raised DatabaseError ''another statement''))
     default_settings
   = ([PrintBytes
         (''WITH classes AS (SELECT g3 as val, ntile(5) OVER (ORDER BY g3) AS class_id '' @
          ''FROM census_2016_data.ste_g01 AS tab '' @
          ''INNER JOIN census_2016_web.ste AS bdy ON tab.aus_code_2016 = bdy.id '' @
          ''WHERE g3 > 0.0 AND bdy.population > 5.0) '' @
          ''SELECT MAX(val) AS val, class_id FROM classes GROUP BY class_id ORDER BY class_id'')],
      Inr [Num 12, Num 40]) \<and>
   equal_count_sql ''census_2016_data.ste_g01'' ''census_2016_web.ste'' ''g3'' 5 ''percent''
     default_settings =
   Inr (''WITH classes AS (SELECT g3 as val, ntile(7) OVER (ORDER BY g3) AS class_id '' @
        ''FROM census_2016_data.ste_g01 AS tab '' @
        ''INNER JOIN census_2016_web.ste AS bdy ON tab.aus_code_2016 = bdy.id '' @
        ''WHERE g3 > 0.0 AND g3 < 100.0 AND bdy.population > 5.0) '' @
        ''SELECT MAX(val) AS val, class_id FROM classes GROUP BY class_id ORDER BY class_id'') \<and>
   equal_count_sql ''census_2016_data.ste_g01'' ''census_2016_web.ste'' ''g3'' 5 ''values''
     default_settings =
   Inr (''WITH classes AS (SELECT g3 as val, ntile(5) OVER (ORDER BY g3) AS class_id '' @
        ''FROM census_2016_data.ste_g01 AS tab '' @
        ''INNER JOIN census_2016_web.ste AS bdy ON tab.aus_code_2016 = bdy.id '' @
        ''WHERE g3 > 0.0 AND bdy.population > 5.0) '' @
        ''SELECT MAX(val) AS val, class_id FROM classes GROUP BY class_id ORDER BY class_id'')"
  using equal_count_percent_ignores_num_classes
    [of "''census_2016_data.ste_g01''" "''census_2016_web.ste''" "''g3''" 5 default_settings 5
      "\<lambda>q. if q = ''WITH classes AS (SELECT g3 as val, ntile(7) OVER (ORDER BY g3) AS class_id '' @
                   ''FROM census_2016_data.ste_g01 AS tab '' @
                   ''INNER JOIN census_2016_web.ste AS bdy ON tab.aus_code_2016 = bdy.id '' @
                   ''WHERE g3 > 0.0 AND g3 < 100.0 AND bdy.population > 5.0) '' @
                   ''SELECT MAX(val) AS val, class_id FROM classes GROUP BY class_id ORDER BY class_id''
           then Inr [[(''val'', Num 12), (''class_id'', Num 1)],
                     [(''val'', Num 40), (''class_id'', Num 2)]]
           else Inl (Raised DatabaseError ''another statement'')"]
    equal_count_percent_ignores_num_classes
    [of "''census_2016_data.ste_g01''" "''census_2016_web.ste''" "''g3''" 5 default_settings 5
      "\<lambda>q. if q = ''WITH classes AS (SELECT g3 as val, ntile(5) OVER (ORDER BY g3) AS class_id '' @
                   ''FROM census_2016_data.ste_g01 AS tab '' @
                   ''INNER JOIN census_2016_web.ste AS bdy ON tab.aus_code_2016 = bdy.id '' @
                   ''WHERE g3 > 0.0 AND bdy.population > 5.0) '' @
                   ''SELECT MAX(val) AS val, class_id FROM classes GROUP BY class_id ORDER BY class_id''
           then Inr [[(''val'', Num 12), (''class_id'', Num 1)],
                     [(''val'', Num 40), (''class_id'', Num 2)]]
           else Inl (Raised DatabaseError ''another statement'')"]
  by (simp add: default_settings_fields str_int_def str_digits.simps digit_char_def Let_def)

subsection \<open>Failing queries\<close>

text \<open>
  C3. When the K-means query raises (building the statement or executing it),
  \<open>get_kmeans_bins\<close> prints one line that holds the data table, the statistic field and
  the text of the error, and returns the empty list; no error leaves the function. When
  the query succeeds with no rows, it returns the empty list and prints nothing.
  When the query of \<open>get_equal_count_bins\<close> raises, that function returns the empty list
  as well, and the last line it prints is the same failure line.
\<close>

theorem query_failure_gives_empty_list:
  "(execute pg_cur (kmeans_sql float_str data_table boundary_table stat_field num_classes
        min_val map_type settings) = Inl ex \<longrightarrow>
      get_kmeans_bins float_str data_table boundary_table stat_field num_classes min_val
        map_type pg_cur settings
      = ([PrintStr (data_table @ '' - '' @ stat_field @ '' Failed: '' @ error_text ex)],
         Inr [])) \<and>
   (execute pg_cur (kmeans_sql float_str data_table boundary_table stat_field num_classes
        min_val map_type settings) = Inr [] \<longrightarrow>
      get_kmeans_bins float_str data_table boundary_table stat_field num_classes min_val
        map_type pg_cur settings = ([], Inr [])) \<and>
   (execute pg_cur (equal_count_sql data_table boundary_table stat_field num_classes
        map_type settings) = Inl ex \<longrightarrow>
      snd (get_equal_count_bins data_table boundary_table stat_field num_classes map_type
             pg_cur settings) = Inr [] \<and>
      last (fst (get_equal_count_bins data_table boundary_table stat_field num_classes
                   map_type pg_cur settings))
        = PrintStr (data_table @ '' - '' @ stat_field @ '' Failed: '' @ error_text ex))"
  by (auto simp: get_kmeans_bins_def get_equal_count_bins_def execute_def failed_message_def
      split: sum.splits)

theorem query_failure_gives_empty_list_witness:
  "get_kmeans_bins (\<lambda>x. ''80.0'') ''census_2016_data.ste_g01'' ''census_2016_web.ste'' ''g3''
     7 80 ''values''
     (\<lambda>q. Inl (Raised DatabaseError ''function st_clusterkmeans does not exist''))
     default_settings
   = ([PrintStr (''census_2016_data.ste_g01 - g3 Failed: '' @
                 ''function st_clusterkmeans does not exist'')], Inr []) \<and>
   get_kmeans_bins (\<lambda>x. ''80.0'') ''census_2016_data.ste_g01'' ''census_2016_web.ste'' ''g3''
     7 80 ''values'' (\<lambda>q. Inr []) default_settings = ([], Inr []) \<and>
   snd (get_equal_count_bins ''census_2016_data.ste_g01'' ''census_2016_web.ste'' ''g3'' 7
          ''values'' (\<lambda>q. Inl (Raised DatabaseError ''relation does not exist''))
          default_settings) = Inr []"
  using query_failure_gives_empty_list
    [of "\<lambda>q. Inl (Raised DatabaseError ''function st_clusterkmeans does not exist'')"
      "\<lambda>x. ''80.0''" "''census_2016_data.ste_g01''" "''census_2016_web.ste''" "''g3''" 7 80
      "''values''" default_settings
      "Raised DatabaseError ''function st_clusterkmeans does not exist''"]
    query_failure_gives_empty_list
    [of "\<lambda>q. Inr []"
      "\<lambda>x. ''80.0''" "''census_2016_data.ste_g01''" "''census_2016_web.ste''" "''g3''" 7 80
      "''values''" default_settings "Raised DatabaseError ''relation does not exist''"]
    query_failure_gives_empty_list
    [of "\<lambda>q. Inl (Raised DatabaseError ''relation does not exist'')"
      "\<lambda>x. ''80.0''" "''census_2016_data.ste_g01''" "''census_2016_web.ste''" "''g3''" 7 80
      "''values''" default_settings "Raised DatabaseError ''relation does not exist''"]
  by (simp add: execute_def kmeans_sql_def equal_count_sql_def default_settings_fields)

subsection \<open>Equal-interval on an empty selection\<close>

text \<open>
  C4. When the MIN/MAX query of \<open>get_equal_interval_bins\<close> succeeds and matches no
  rows, the fetched row holds no value for MIN and none for MAX. The subtraction on them
  stands after the \<^verbatim>\<open>try\<close> block, so its TypeError leaves the function: the result
  is an error, not the empty list and not any other list.
\<close>

theorem equal_interval_empty_selection_raises:
  assumes "execute pg_cur (equal_interval_sql data_table boundary_table stat_field map_type
             settings) = Inr (row # rows)"
    and "map_of row ''min'' = Some Null"
    and "map_of row ''max'' = Some Null"
  shows "get_equal_interval_bins data_table boundary_table stat_field num_classes map_type
           pg_cur settings
         = ([], Inl (Raised TypeError ''unsupported operand type(s) for -''))"
  using assms
  by (simp add: get_equal_interval_bins_def fetchone_def equal_interval_breaks_def)

theorem equal_interval_empty_selection_raises_witness:
  "get_equal_interval_bins ''census_2016_data.ste_g01'' ''census_2016_web.ste'' ''g3'' 7
     ''percent'' (\<lambda>q. Inr [[(''min'', Null), (''max'', Null)]]) default_settings
   = ([], Inl (Raised TypeError ''unsupported operand type(s) for -''))"
  using equal_interval_empty_selection_raises
    [of "\<lambda>q. Inr [[(''min'', Null), (''max'', Null)]]" "''census_2016_data.ste_g01''"
      "''census_2016_web.ste''" "''g3''" "''percent''" default_settings
      "[(''min'', Null), (''max'', Null)]" "[]" 7]
  by (simp add: execute_def equal_interval_sql_def default_settings_fields)

subsection \<open>Primary key ranges\<close>

lemma loop_ranges_length [simp]: "length (loop_ranges k s r) = k"
  by (induction k arbitrary: s) simp_all

lemma loop_ranges_nth:
  "i < k \<Longrightarrow> loop_ranges k s r ! i = (s + int i * r, s + (int i + 1) * r)"
proof (induction k arbitrary: s i)
  case 0
  then show ?case by simp
next
  case (Suc k)
  show ?case
  proof (cases i)
    case 0
    then show ?thesis by simp
  next
    case (Suc j)
    with Suc.prems have "j < k" by simp
    from Suc.IH [OF this, of "s + r"] Suc show ?thesis
      by (simp add: algebra_simps)
  qed
qed

lemma split_loop_ranges:
  "split_loop k start rpr the_sql table_alias table_gid (lg, out) =
     (lg @ concat (map (\<lambda>(s, e). snd (inject_where_clause the_sql
                                        (where_clause table_alias s e table_gid)))
                    (loop_ranges k start rpr)),
      out @ map (\<lambda>(s, e). fst (inject_where_clause the_sql
                                 (where_clause table_alias s e table_gid)))
              (loop_ranges k start rpr))"
  by (induction k arbitrary: start lg out) (simp_all add: Let_def split: prod.splits)

lemma interval_index_unique:
  fixes a r k :: int
  assumes "0 < r" "a < k" "k \<le> a + int n * r"
  shows "\<exists>!i. i < n \<and> a + int i * r < k \<and> k \<le> a + (int i + 1) * r"
proof -
  let ?x = "k - a - 1"
  have char: "a + int i * r < k \<and> k \<le> a + (int i + 1) * r \<longleftrightarrow> ?x div r = int i" for i
    using div_interval_iff [OF assms(1), of ?x "int i"] by auto
  have nn: "0 \<le> ?x div r"
    using assms by (simp add: pos_imp_zdiv_nonneg_iff)
  have up: "?x < int n * r" using assms by simp
  have "?x div r < int n"
  proof (rule ccontr)
    assume "\<not> ?x div r < int n"
    then have "int n \<le> ?x div r" by simp
    then have "int n * r \<le> (?x div r) * r"
      using assms(1) by (simp add: mult_right_mono)
    also have "\<dots> \<le> ?x"
      using div_interval_iff [OF assms(1), of ?x "?x div r"] by simp
    finally show False using up by simp
  qed
  with nn have lt: "nat (?x div r) < n" by simp
  show ?thesis
  proof (rule ex1I [of _ "nat (?x div r)"])
    show "nat (?x div r) < n \<and> a + int (nat (?x div r)) * r < k \<and>
          k \<le> a + (int (nat (?x div r)) + 1) * r"
      using lt nn char [of "nat (?x div r)"] by simp
  next
    fix i
    assume "i < n \<and> a + int i * r < k \<and> k \<le> a + (int i + 1) * r"
    then have "?x div r = int i" using char by blast
    then show "i = nat (?x div r)" by simp
  qed
qed


lemma split_size_exact:
  assumes d: "0 \<le> diff" "diff < 2 ^ 53" and m: "mcp \<noteq> 0" "\<bar>mcp\<bar> \<le> 2 ^ 53"
  shows "split_size diff mcp =
     Inr (if real_of_int diff / real_of_int mcp < 10
          then (10, diff div 10 + 1,
                [(Info, [CHR 0x09, CHR 0x09] @ ''- running '' @ str_int (diff div 10 + 1) @
                        '' processes (adjusted due to low row count in table to split)'')])
          else (diff div mcp + 1, mcp, []))"
proof -
  have fd: "py_float diff = Inr (of_int diff)"
    using d by (intro py_float_exact) simp
  have fp: "py_float mcp = Inr (of_int mcp)"
    using m by (intro py_float_exact)
  have ten: "\<lfloor>fl (real_of_int diff / 10)\<rfloor> = diff div 10"
    using floor_fl_quotient [OF d, of 10] by simp
  show ?thesis
  proof (cases "0 < mcp")
    case True
    have b: "mcp \<le> 2 ^ 53" using m by simp
    have "fl (real_of_int diff / real_of_int mcp) < 10
            \<longleftrightarrow> real_of_int diff / real_of_int mcp < 10"
      using fl_quotient_less_iff [OF d True b, of 10] by simp
    then show ?thesis
      using m floor_fl_quotient [OF d True b]
      by (simp add: split_size_def fd fp ten Let_def)
  next
    case False
    then have neg: "real_of_int mcp < 0" using m by simp
    then have q: "real_of_int diff / real_of_int mcp \<le> 0"
      using d by (simp add: divide_nonneg_neg)
    then have "fl (real_of_int diff / real_of_int mcp) \<le> fl 0"
      by (rule fl_mono)
    then have "fl (real_of_int diff / real_of_int mcp) < 10" by simp
    moreover have "real_of_int diff / real_of_int mcp < 10" using q by simp
    ultimately show ?thesis
      using m by (simp add: split_size_def fd fp ten Let_def)
  qed
qed

lemma split_size_covers:
  assumes "0 \<le> diff" "diff < 2 ^ 53" "mcp \<noteq> 0" "\<bar>mcp\<bar> \<le> 2 ^ 53"
    and "split_size diff mcp = Inr (rpr, procs, lg)"
  shows "1 \<le> rpr \<and> 1 \<le> procs \<and> diff < procs * rpr"
proof (cases "real_of_int diff / real_of_int mcp < 10")
  case True
  with assms(5) have "rpr = 10" "procs = diff div 10 + 1"
    by (simp_all add: split_size_exact [OF assms(1-4)])
  with assms(1) show ?thesis by simp presburger
next
  case False
  with assms(5) have e: "rpr = diff div mcp + 1" "procs = mcp"
    by (auto simp add: split_size_exact [OF assms(1-4)])
  have p: "0 < mcp"
  proof (rule ccontr)
    assume "\<not> 0 < mcp"
    then have "real_of_int mcp \<le> 0" by simp
    with assms(1) have "real_of_int diff / real_of_int mcp \<le> 0"
      by (simp add: divide_nonneg_nonpos)
    with False show False by simp
  qed
  have "0 \<le> diff div mcp" using assms(1) p by (simp add: pos_imp_zdiv_nonneg_iff)
  moreover have "diff < mcp * (diff div mcp + 1)"
    using div_interval_iff [OF p, of diff "diff div mcp"] by (simp add: algebra_simps)
  ultimately show ?thesis using e p by simp
qed

lemma split_ranges_shape:
  assumes "min_pkey \<le> max_pkey" "max_pkey - min_pkey < 2 ^ 53"
    and "mcp \<noteq> 0" "\<bar>mcp\<bar> \<le> 2 ^ 53"
  obtains rpr procs where
    "(rpr, procs) =
       (if real_of_int (max_pkey - min_pkey) / real_of_int mcp < 10
        then (10, (max_pkey - min_pkey) div 10 + 1)
        else ((max_pkey - min_pkey) div mcp + 1, mcp))"
    "split_ranges min_pkey max_pkey mcp = Inr (loop_ranges (nat procs) (min_pkey - 1) rpr)"
    "1 \<le> rpr" "1 \<le> procs" "max_pkey - min_pkey < procs * rpr"
proof -
  have d: "0 \<le> max_pkey - min_pkey" using assms(1) by simp
  note ex = split_size_exact [OF d assms(2-4)]
  obtain rpr procs lg where e: "split_size (max_pkey - min_pkey) mcp = Inr (rpr, procs, lg)"
    unfolding ex by (cases "real_of_int (max_pkey - min_pkey) / real_of_int mcp < 10") simp_all
  have "(rpr, procs) =
       (if real_of_int (max_pkey - min_pkey) / real_of_int mcp < 10
        then (10, (max_pkey - min_pkey) div 10 + 1)
        else ((max_pkey - min_pkey) div mcp + 1, mcp))"
    using e unfolding ex by (auto split: if_splits)
  moreover have "split_ranges min_pkey max_pkey mcp =
      Inr (loop_ranges (nat procs) (min_pkey - 1) rpr)"
    by (simp add: split_ranges_def e)
  moreover have "1 \<le> rpr \<and> 1 \<le> procs \<and> max_pkey - min_pkey < procs * rpr"
    using split_size_covers [OF d assms(2-4) e] .
  ultimately show ?thesis using that by blast
qed

lemma loop_ranges_partition:
  assumes r: "1 \<le> rpr" and p: "1 \<le> procs" and c: "max_pkey - min_pkey < procs * rpr"
    and e: "ranges = loop_ranges (nat procs) (min_pkey - 1) rpr"
  shows "ranges = map (\<lambda>i. (min_pkey - 1 + int i * rpr, min_pkey - 1 + (int i + 1) * rpr))
                    [0..<nat procs]"
    and "fst (hd ranges) = min_pkey - 1"
    and "\<forall>i. Suc i < length ranges \<longrightarrow> snd (ranges ! i) = fst (ranges ! Suc i)"
    and "\<forall>i j. i < j \<and> j < length ranges \<longrightarrow>
           fst (ranges ! i) < snd (ranges ! i) \<and> snd (ranges ! i) \<le> fst (ranges ! j)"
    and "\<forall>k. min_pkey \<le> k \<and> k \<le> max_pkey \<longrightarrow>
           (\<exists>!i. i < length ranges \<and> fst (ranges ! i) < k \<and> k \<le> snd (ranges ! i))"
proof -
  from p obtain n where n: "nat procs = Suc n" by (cases "nat procs") auto
  show "ranges = map (\<lambda>i. (min_pkey - 1 + int i * rpr, min_pkey - 1 + (int i + 1) * rpr))
                    [0..<nat procs]"
    unfolding e by (rule nth_equalityI) (simp_all add: loop_ranges_nth)
  show "fst (hd ranges) = min_pkey - 1"
    by (simp add: e n)
  show "\<forall>i. Suc i < length ranges \<longrightarrow> snd (ranges ! i) = fst (ranges ! Suc i)"
    by (simp add: e loop_ranges_nth algebra_simps)
  show "\<forall>i j. i < j \<and> j < length ranges \<longrightarrow>
           fst (ranges ! i) < snd (ranges ! i) \<and> snd (ranges ! i) \<le> fst (ranges ! j)"
  proof (intro allI impI)
    fix i j
    assume h: "i < j \<and> j < length ranges"
    then have "int i + 1 \<le> int j" by simp
    then have "(int i + 1) * rpr \<le> int j * rpr"
      using r by (intro mult_right_mono) simp_all
    then show "fst (ranges ! i) < snd (ranges ! i) \<and> snd (ranges ! i) \<le> fst (ranges ! j)"
      using h r by (simp add: e loop_ranges_nth algebra_simps)
  qed
  show "\<forall>k. min_pkey \<le> k \<and> k \<le> max_pkey \<longrightarrow>
           (\<exists>!i. i < length ranges \<and> fst (ranges ! i) < k \<and> k \<le> snd (ranges ! i))"
  proof (intro allI impI)
    fix k
    assume k: "min_pkey \<le> k \<and> k \<le> max_pkey"
    have "int (nat procs) = procs" using p by simp
    then have "k \<le> min_pkey - 1 + int (nat procs) * rpr" using k c by simp
    from interval_index_unique [OF _ _ this] r k
    have "\<exists>!i. i < nat procs \<and> min_pkey - 1 + int i * rpr < k \<and>
               k \<le> min_pkey - 1 + (int i + 1) * rpr" by simp
    then show "\<exists>!i. i < length ranges \<and> fst (ranges ! i) < k \<and> k \<le> snd (ranges ! i)"
      unfolding e by (simp add: loop_ranges_nth cong: conj_cong)
  qed
qed

lemma split_sql_into_list_ranges:
  assumes "pg_cur (min_max_sql table_schema table_name table_gid) = Inr rows"
    and "pkey_of (fetchone rows) 0 = Inr min_pkey"
    and "pkey_of (fetchone rows) 1 = Inr max_pkey"
    and "split_ranges min_pkey max_pkey (max_concurrent_processes settings) = Inr ranges"
  shows "\<exists>lg. split_sql_into_list pg_cur the_sql table_schema table_name table_alias table_gid
              settings
          = (lg, Inr (Some (map (\<lambda>(s, e). fst (inject_where_clause the_sql
                                               (where_clause table_alias s e table_gid)))
                             ranges)))"
  using assms
  by (auto simp add: split_sql_into_list_def split_try_def split_ranges_def split_loop_ranges
      split: prod.splits sum.splits)

text \<open>
  Where the float division is exact enough: for keys less than \<open>2 ^ 53\<close> apart (and a
  number of processes other than 0, of at most \<open>2 ^ 53\<close>), the rows per request are
  \<open>(max - min) div processes + 1\<close>, or 10 with \<open>(max - min) div 10 + 1\<close> ranges when
  \<open>(max - min) / processes < 10\<close>, and the ranges partition the keys: the first starts at
  \<open>min_pkey - 1\<close>, each ends where the next starts, none is empty, no two overlap, and
  every key from \<open>min_pkey\<close> to \<open>max_pkey\<close> lies in exactly one of them.
\<close>

lemma split_sql_partitions_below_2_53:
  assumes "pg_cur (min_max_sql table_schema table_name table_gid) = Inr rows"
    and "pkey_of (fetchone rows) 0 = Inr min_pkey"
    and "pkey_of (fetchone rows) 1 = Inr max_pkey"
    and "min_pkey \<le> max_pkey"
    and "max_pkey - min_pkey < 2 ^ 53"
    and "max_concurrent_processes settings \<noteq> 0"
    and "\<bar>max_concurrent_processes settings\<bar> \<le> 2 ^ 53"
  shows
   "\<exists>ranges.
      split_ranges min_pkey max_pkey (max_concurrent_processes settings) = Inr ranges \<and>
      (\<exists>lg. split_sql_into_list pg_cur the_sql table_schema table_name table_alias table_gid
               settings
           = (lg, Inr (Some (map (\<lambda>(s, e). fst (inject_where_clause the_sql
                                                (where_clause table_alias s e table_gid)))
                              ranges)))) \<and>
      (\<exists>rows_per_request processes.
          (rows_per_request, processes) =
            (if real_of_int (max_pkey - min_pkey)
                  / real_of_int (max_concurrent_processes settings) < 10
             then (10, (max_pkey - min_pkey) div 10 + 1)
             else ((max_pkey - min_pkey) div max_concurrent_processes settings + 1,
                   max_concurrent_processes settings)) \<and>
          1 \<le> processes \<and>
          ranges = map (\<lambda>i. (min_pkey - 1 + int i * rows_per_request,
                              min_pkey - 1 + (int i + 1) * rows_per_request))
                     [0..<nat processes]) \<and>
      fst (hd ranges) = min_pkey - 1 \<and>
      (\<forall>i. Suc i < length ranges \<longrightarrow> snd (ranges ! i) = fst (ranges ! Suc i)) \<and>
      (\<forall>i j. i < j \<and> j < length ranges \<longrightarrow>
         fst (ranges ! i) < snd (ranges ! i) \<and> snd (ranges ! i) \<le> fst (ranges ! j)) \<and>
      (\<forall>k. min_pkey \<le> k \<and> k \<le> max_pkey \<longrightarrow>
         (\<exists>!i. i < length ranges \<and> fst (ranges ! i) < k \<and> k \<le> snd (ranges ! i)))"
proof -
  let ?mcp = "max_concurrent_processes settings"
  obtain rpr procs where
    sz: "(rpr, procs) =
       (if real_of_int (max_pkey - min_pkey) / real_of_int ?mcp < 10
        then (10, (max_pkey - min_pkey) div 10 + 1)
        else ((max_pkey - min_pkey) div ?mcp + 1, ?mcp))"
    and e: "split_ranges min_pkey max_pkey ?mcp = Inr (loop_ranges (nat procs) (min_pkey - 1) rpr)"
    and r: "1 \<le> rpr" and p: "1 \<le> procs" and c: "max_pkey - min_pkey < procs * rpr"
    using split_ranges_shape [OF assms(4-7)] by blast
  define ranges where "ranges = loop_ranges (nat procs) (min_pkey - 1) rpr"
  have e': "split_ranges min_pkey max_pkey ?mcp = Inr ranges"
    by (simp add: e ranges_def)
  note part = loop_ranges_partition [OF r p c ranges_def]
  have shape: "\<exists>rows_per_request processes.
          (rows_per_request, processes) =
            (if real_of_int (max_pkey - min_pkey) / real_of_int ?mcp < 10
             then (10, (max_pkey - min_pkey) div 10 + 1)
             else ((max_pkey - min_pkey) div ?mcp + 1, ?mcp)) \<and>
          1 \<le> processes \<and>
          ranges = map (\<lambda>i. (min_pkey - 1 + int i * rows_per_request,
                              min_pkey - 1 + (int i + 1) * rows_per_request))
                     [0..<nat processes]"
    using sz p part(1) by blast
  have issued: "\<exists>lg. split_sql_into_list pg_cur the_sql table_schema table_name table_alias
                table_gid settings
         = (lg, Inr (Some (map (\<lambda>(s, e). fst (inject_where_clause the_sql
                                              (where_clause table_alias s e table_gid)))
                            ranges)))"
    using assms(1,2,3) e' by (rule split_sql_into_list_ranges)
  show ?thesis
    using e' issued shape part(2-5) by blast
qed

lemma split_ranges_examples:
  "split_ranges 1 100 3 = Inr [(0, 34), (34, 68), (68, 102)]"
  "split_ranges 1 5 10 = Inr [(0, 10)]"
  using split_size_exact [of 99 3] split_size_exact [of 4 10]
  by (simp_all add: split_ranges_def eval_nat_numeral)

text \<open>
  C8. The claim: the ranges of the statements \<open>split_sql_into_list\<close> returns partition
  the keys, so that every key from the smallest to the largest lies in exactly one of
  them. The code computes the rows per request from
  \<^verbatim>\<open>float(diff) / float(settings['max_concurrent_processes'])\<close>, and a float
  holds an integer above \<open>2 ^ 53\<close> only to the nearest double. With the keys 1 to
  9007199254740994 and 3 processes, \<^verbatim>\<open>float(diff)\<close> is 9007199254740992 for the
  difference 9007199254740993, the quotient is rounded to 3002399751580330.5, and the
  rows per request are 3002399751580331, one less than
  \<open>9007199254740993 div 3 + 1\<close>. The three statements returned end at the key
  9007199254740993: the largest key, 9007199254740994, lies in none of their ranges, and
  its row is in no partition. For keys less than \<open>2 ^ 53\<close> apart the ranges do
  partition the keys (lemma \<open>split_sql_partitions_below_2_53\<close>), and the two examples
  of the claim are as it says: 3 ranges for the keys 1 to 100 and 3 processes, one range
  for the keys 1 to 5 and 10 processes (lemma \<open>split_ranges_examples\<close>).
\<close>

theorem split_sql_misses_largest_key:
  "split_sql_into_list (\<lambda>q. Inr [[(''min'', Num 1), (''max'', Num 9007199254740994)]])
     ''INSERT INTO t2 SELECT * FROM t1 AS tab WHERE tab.pop > 0;''
     ''census_2016_web'' ''t1'' ''tab'' ''gid'' default_settings
   = ([], Inr (Some
        [''INSERT INTO t2 SELECT * FROM t1 AS tab WHERE tab.gid > 0 AND tab.gid <= 3002399751580331 AND tab.pop > 0;'',
         ''INSERT INTO t2 SELECT * FROM t1 AS tab WHERE tab.gid > 3002399751580331 AND tab.gid <= 6004799503160662 AND tab.pop > 0;'',
         ''INSERT INTO t2 SELECT * FROM t1 AS tab WHERE tab.gid > 6004799503160662 AND tab.gid <= 9007199254740993 AND tab.pop > 0;''])) \<and>
   split_ranges 1 9007199254740994 3 =
     Inr [(0, 3002399751580331), (3002399751580331, 6004799503160662),
          (6004799503160662, 9007199254740993)] \<and>
   filter (\<lambda>(start_pkey, end_pkey). start_pkey < 9007199254740994 \<and> 9007199254740994 \<le> end_pkey)
     [(0, 3002399751580331), (3002399751580331, 6004799503160662),
      (6004799503160662, 9007199254740993 :: int)] = ([] :: (int \<times> int) list)"
proof -
  have f: "py_float 9007199254740993 = Inr 9007199254740992" "py_float 3 = Inr 3"
    by (simp_all add: py_float_def fl_eval)
  have q: "fl (9007199254740992 / 3) = 6004799503160661 / 2"
    by (simp add: fl_eval)
  have sz: "split_size 9007199254740993 3 = Inr (3002399751580331, 3, [])"
    by (simp add: split_size_def f q Let_def)
  have r: "split_ranges 1 9007199254740994 3 =
     Inr [(0, 3002399751580331), (3002399751580331, 6004799503160662),
          (6004799503160662, 9007199254740993)]"
    by (simp add: split_ranges_def sz eval_nat_numeral)
  have i: "map (\<lambda>(s, e). fst (inject_where_clause
                ''INSERT INTO t2 SELECT * FROM t1 AS tab WHERE tab.pop > 0;''
                (where_clause ''tab'' s e ''gid'')))
             [(0, 3002399751580331), (3002399751580331, 6004799503160662),
              (6004799503160662, 9007199254740993)]
     = [''INSERT INTO t2 SELECT * FROM t1 AS tab WHERE tab.gid > 0 AND tab.gid <= 3002399751580331 AND tab.pop > 0;'',
        ''INSERT INTO t2 SELECT * FROM t1 AS tab WHERE tab.gid > 3002399751580331 AND tab.gid <= 6004799503160662 AND tab.pop > 0;'',
        ''INSERT INTO t2 SELECT * FROM t1 AS tab WHERE tab.gid > 6004799503160662 AND tab.gid <= 9007199254740993 AND tab.pop > 0;'']"
    by (simp add: inject_where_clause_def where_clause_def sublist_code py_replace.simps
        str_int_def str_digits.simps digit_char_def)
  have w: "snd (inject_where_clause
                  ''INSERT INTO t2 SELECT * FROM t1 AS tab WHERE tab.pop > 0;'' c) = []" for c
    by (simp add: inject_where_clause_def sublist_code)
  have s: "split_sql_into_list (\<lambda>q. Inr [[(''min'', Num 1), (''max'', Num 9007199254740994)]])
     ''INSERT INTO t2 SELECT * FROM t1 AS tab WHERE tab.pop > 0;''
     ''census_2016_web'' ''t1'' ''tab'' ''gid'' default_settings
   = ([], Inr (Some (map (\<lambda>(s, e). fst (inject_where_clause
                ''INSERT INTO t2 SELECT * FROM t1 AS tab WHERE tab.pop > 0;''
                (where_clause ''tab'' s e ''gid'')))
             [(0, 3002399751580331), (3002399751580331, 6004799503160662),
              (6004799503160662, 9007199254740993)])))"
    by (simp add: split_sql_into_list_def split_try_def pkey_of_def fetchone_def
        default_settings_fields sz split_loop_ranges eval_nat_numeral Let_def w)
  show ?thesis
    unfolding s i using r by simp
qed

subsection \<open>Injecting the range predicate\<close>

lemma py_replace_absent:
  assumes "old \<noteq> []" "\<not> sublist old s"
  shows "py_replace old new s = s"
  using assms
proof (induction s)
  case Nil
  then show ?case by (simp add: py_replace.simps)
next
  case (Cons c s)
  then have "\<not> prefix old (c # s)" "\<not> sublist old s"
    by (auto simp: sublist_Cons_right)
  with Cons show ?case
    by (subst py_replace.simps) simp
qed

lemma inject_where_clause_unchanged:
  assumes "sublist ''WHERE '' the_sql" "\<not> sublist '' WHERE '' the_sql"
  shows "inject_where_clause the_sql clause = (the_sql, [])"
  using assms by (simp add: inject_where_clause_def py_replace_absent)

lemma prefix_of_shorter:
  assumes "prefix xs (ys @ zs)" "length xs \<le> length ys"
  shows "prefix xs ys"
proof -
  have "xs = take (length xs) (ys @ zs)"
    using assms(1) by (metis append_eq_conv_conj prefix_def)
  also have "\<dots> = take (length xs) ys"
    using assms(2) by simp
  finally show ?thesis
    by (metis take_is_prefix)
qed

lemma py_replace_first:
  assumes "old \<noteq> []" "\<not> sublist old (pre @ butlast old)"
  shows "py_replace old new (pre @ old @ post) = pre @ new @ py_replace old new post"
  using assms(2)
proof (induction pre)
  case Nil
  show ?case using assms(1) by (subst py_replace.simps) simp
next
  case (Cons c p)
  have np: "\<not> prefix old ((c # p) @ old @ post)"
  proof
    assume h: "prefix old ((c # p) @ old @ post)"
    have eq: "(c # p) @ old @ post = ((c # p) @ butlast old) @ (last old # post)"
      using assms(1) by simp
    have len: "length old \<le> length ((c # p) @ butlast old)"
      by simp
    have "prefix old (((c # p) @ butlast old) @ (last old # post))"
      using h unfolding eq .
    then have "prefix old ((c # p) @ butlast old)"
      using len by (rule prefix_of_shorter)
    then have "sublist old ((c # p) @ butlast old)" by (rule prefix_imp_sublist)
    with Cons.prems show False by simp
  qed
  have "\<not> sublist old (p @ butlast old)"
    using Cons.prems by (auto simp: sublist_Cons_right)
  from Cons.IH [OF this] np show ?case
    using assms(1) by (subst py_replace.simps) simp
qed

lemma inject_where_clause_joined_with_and:
  assumes "\<not> sublist '' WHERE '' (pre @ '' WHERE'')"
  shows "inject_where_clause (pre @ '' WHERE '' @ post) clause =
     (pre @ clause @ '' AND '' @ py_replace '' WHERE '' (clause @ '' AND '') post, [])"
proof -
  have "sublist ''WHERE '' (pre @ '' WHERE '' @ post)"
    using sublist_appendI [of "''WHERE ''" "pre @ '' ''" post] by simp
  moreover have "py_replace '' WHERE '' (clause @ '' AND '') (pre @ '' WHERE '' @ post) =
      pre @ (clause @ '' AND '') @ py_replace '' WHERE '' (clause @ '' AND '') post"
    using assms by (intro py_replace_first) simp_all
  ultimately show ?thesis
    by (simp add: inject_where_clause_def)
qed

lemma inject_where_clause_examples:
  "inject_where_clause ''SELECT a FROM t WHERE a > 0;'' '' WHERE t.gid > 0 AND t.gid <= 10''
     = (''SELECT a FROM t WHERE t.gid > 0 AND t.gid <= 10 AND a > 0;'', [])"
  "inject_where_clause ''SELECT a FROM t GROUP BY a ORDER BY a;'' '' WHERE t.gid > 0 AND t.gid <= 10''
     = (''SELECT a FROM t  WHERE t.gid > 0 AND t.gid <= 10 GROUP BY a ORDER BY a;'', [])"
  "inject_where_clause ''SELECT a FROM t ORDER BY a;'' '' WHERE t.gid > 0 AND t.gid <= 10''
     = (''SELECT a FROM t  WHERE t.gid > 0 AND t.gid <= 10 ORDER BY a;'', [])"
  "inject_where_clause ''SELECT a FROM t;'' '' WHERE t.gid > 0 AND t.gid <= 10''
     = (''SELECT a FROM t WHERE t.gid > 0 AND t.gid <= 10;'', [])"
  "inject_where_clause ''SELECT a FROM t'' '' WHERE t.gid > 0 AND t.gid <= 10''
     = (''SELECT a FROM t WHERE t.gid > 0 AND t.gid <= 10'',
        [(Warning, [CHR 0x09, CHR 0x09] @
                   ''- NOTICE: no ; found at the end of the SQL statement'')])"
  by (simp_all add: inject_where_clause_def sublist_code py_replace.simps)

text \<open>
  C9. The claim: the range predicate of a partition is injected by rewriting the first
  clause present among WHERE, GROUP BY and ORDER BY; at a WHERE it is joined to the
  existing conditions with AND; with none of the three it goes before the \<open>;\<close> or, with
  a warning, to the end. The code chooses the WHERE branch when the statement holds
  \<^verbatim>\<open>"WHERE "\<close>, but rewrites only \<^verbatim>\<open>" WHERE "\<close>, with a space in front. For a
  statement whose WHERE stands at the start of a line the branch is chosen and nothing is
  rewritten: with keys 1 to 100 and 3 processes, all three statements returned are the
  statement as it was, with no range predicate. The GROUP BY and ORDER BY branches test
  and rewrite the same text, and the lemmas above show the predicate joined with AND
  when a space stands before WHERE.
\<close>

theorem where_after_line_break_not_restricted:
  "split_sql_into_list (\<lambda>q. Inr [[(''min'', Num 1), (''max'', Num 100)]])
     (''INSERT INTO t2 SELECT * FROM t1 AS tab'' @ [CHR 0x0A] @ ''WHERE tab.pop > 0;'')
     ''census_2016_web'' ''t1'' ''tab'' ''gid'' default_settings
   = ([], Inr (Some
        [''INSERT INTO t2 SELECT * FROM t1 AS tab'' @ [CHR 0x0A] @ ''WHERE tab.pop > 0;'',
         ''INSERT INTO t2 SELECT * FROM t1 AS tab'' @ [CHR 0x0A] @ ''WHERE tab.pop > 0;'',
         ''INSERT INTO t2 SELECT * FROM t1 AS tab'' @ [CHR 0x0A] @ ''WHERE tab.pop > 0;'']))"
proof -
  have sz: "split_size 99 3 = Inr (34, 3, [])"
    using split_size_exact [of 99 3] by simp
  show ?thesis
    by (simp add: split_sql_into_list_def split_try_def pkey_of_def fetchone_def
        default_settings_fields sz eval_nat_numeral Let_def
        inject_where_clause_def sublist_code py_replace.simps)
qed

end
